theory Spec2Isabelle
  imports Complex_Main "HOL-Library.Char_ord" "HOL-Library.List_Lexorder"
begin

section \<open>Values shared by the client code and the database\<close>

text \<open>
  Row identifiers are UUIDs, which the TypeScript client handles as strings; dates travel
  as \<open>yyyy-MM-dd\<close> strings and are compared as strings (\<open>budget.start_date <= todayStr\<close>),
  which is the lexicographic order on \<open>string\<close>.  Amounts are JavaScript numbers; they
  are modelled by exact rationals, so the rounding of binary floating point is abstracted
  away, while the special results of a division by zero (\<open>Infinity\<close>, \<open>NaN\<close>) are
  kept as values of their own.
\<close>

type_synonym uuid = string

datatype jsnum = Num rat | PosInfinity | NegInfinity | NaN

text \<open>JavaScript \<open>a / b\<close> on two finite numbers.\<close>

definition js_div :: "rat \<Rightarrow> rat \<Rightarrow> jsnum" where
  "js_div a b =
     (if b = 0 then (if a = 0 then NaN else if 0 < a then PosInfinity else NegInfinity)
      else Num (a / b))"

text \<open>JavaScript \<open>x * k\<close> for a finite positive constant \<open>k\<close> (here always 100).\<close>

fun js_times :: "jsnum \<Rightarrow> rat \<Rightarrow> jsnum" where
  "js_times (Num x) k = Num (x * k)"
| "js_times PosInfinity k = PosInfinity"
| "js_times NegInfinity k = NegInfinity"
| "js_times NaN k = NaN"

text \<open>JavaScript \<open>x > k\<close>: every comparison with \<open>NaN\<close> is false.\<close>

fun js_gt :: "jsnum \<Rightarrow> rat \<Rightarrow> bool" where
  "js_gt (Num x) k = (k < x)"
| "js_gt PosInfinity k = True"
| "js_gt NegInfinity k = False"
| "js_gt NaN k = False"

text \<open>JavaScript \<open>Math.min(x, k)\<close>.\<close>

fun js_min :: "jsnum \<Rightarrow> rat \<Rightarrow> jsnum" where
  "js_min (Num x) k = Num (min x k)"
| "js_min PosInfinity k = Num k"
| "js_min NegInfinity k = NegInfinity"
| "js_min NaN k = NaN"


section \<open>Rows as the client sees them\<close>

datatype txn_type = income | expense

text \<open>The joined \<open>categories (name, color, icon)\<close> of a fetched transaction.\<close>

record txn_category =
  tc_name :: string
  tc_color :: string
  tc_icon :: string

record transaction =
  t_id :: uuid
  t_amount :: rat
  t_type :: txn_type
  t_date :: string
  t_category_id :: "uuid option"
  t_user_id :: uuid
  t_group_id :: "uuid option"
  t_categories :: "txn_category option"

record category =
  c_id :: uuid
  c_user_id :: uuid
  c_name :: string
  c_color :: string
  c_type :: txn_type

record budget =
  b_id :: uuid
  b_user_id :: uuid
  b_category_id :: "uuid option"
  b_amount :: rat
  b_period :: string
  b_start_date :: string
  b_end_date :: string

record profile =
  p_user_id :: uuid
  p_total_expenditure_limit :: "rat option"

text \<open>A row of the table \<open>group_budgets\<close>.\<close>

record group_budget_row =
  gbr_id :: uuid
  gbr_group_id :: uuid
  gbr_category_id :: "uuid option"
  gbr_amount :: rat
  gbr_period :: string
  gbr_start_date :: string
  gbr_end_date :: string
  gbr_created_by :: uuid

text \<open>The \<open>GroupBudget\<close> of the client: the row plus \<open>category_name\<close> and \<open>category_color\<close>.\<close>

record group_budget =
  gb_id :: uuid
  gb_group_id :: uuid
  gb_category_id :: "uuid option"
  gb_category_name :: string
  gb_category_color :: string
  gb_amount :: rat
  gb_period :: string
  gb_start_date :: string
  gb_end_date :: string
  gb_created_by :: uuid


section \<open>Budget limit engine\<close>

text \<open>\<open>normalizeDateStr\<close> on a string: \<open>d.slice(0, 10)\<close>.\<close>

definition normalizeDateStr :: "string \<Rightarrow> string" where
  "normalizeDateStr d = take 10 d"

text \<open>\<open>xs.reduce((sum, t) => sum + Number(t.amount), 0)\<close>.\<close>

definition sum_amounts :: "transaction list \<Rightarrow> rat" where
  "sum_amounts ts = foldl (\<lambda>sum t. sum + t_amount t) 0 ts"

text \<open>One entry of \<open>budgetProgressData\<close>.\<close>

record progress =
  pr_name :: string
  pr_spent :: rat
  pr_budget :: rat
  pr_percentage :: jsnum
  pr_actualPercentage :: jsnum
  pr_isOverBudget :: bool
  pr_color :: string
  pr_overspent :: rat

text \<open>
  The tail both components share:
  \<open>percentage = budgetAmount > 0 ? (categorySpending / budgetAmount) * 100 : 0\<close>,
  \<open>isOverBudget = percentage > 100\<close> and the returned object.
\<close>

definition category_percentage :: "rat \<Rightarrow> rat \<Rightarrow> jsnum" where
  "category_percentage categorySpending budgetAmount =
     (if 0 < budgetAmount then js_times (js_div categorySpending budgetAmount) 100 else Num 0)"

definition progress_entry :: "string \<Rightarrow> string \<Rightarrow> rat \<Rightarrow> rat \<Rightarrow> progress" where
  "progress_entry nm col categorySpending budgetAmount =
     (let percentage = category_percentage categorySpending budgetAmount;
          isOverBudget = js_gt percentage 100
      in \<lparr> pr_name = nm, pr_spent = categorySpending, pr_budget = budgetAmount,
           pr_percentage = js_min percentage 100, pr_actualPercentage = percentage,
           pr_isOverBudget = isOverBudget, pr_color = col,
           pr_overspent = (if isOverBudget then categorySpending - budgetAmount else 0) \<rparr>)"

subsection \<open>Group scope (\<open>GroupBudgetOverview\<close>)\<close>

text \<open>
  \<open>fetchGroupBudgets\<close> selects each row with its joined category and adds
  \<open>category_name: budget.categories?.name || 'Unknown'\<close> and
  \<open>category_color: budget.categories?.color || '#64748b'\<close>; the empty string is falsy.
\<close>

definition or_default :: "string option \<Rightarrow> string \<Rightarrow> string" where
  "or_default v d = (case v of None \<Rightarrow> d | Some s \<Rightarrow> if s = [] then d else s)"

definition transform_group_budget :: "group_budget_row \<Rightarrow> category option \<Rightarrow> group_budget" where
  "transform_group_budget r categories =
     \<lparr> gb_id = gbr_id r, gb_group_id = gbr_group_id r, gb_category_id = gbr_category_id r,
       gb_category_name = or_default (map_option c_name categories) ''Unknown'',
       gb_category_color = or_default (map_option c_color categories) ''#64748b'',
       gb_amount = gbr_amount r, gb_period = gbr_period r,
       gb_start_date = gbr_start_date r, gb_end_date = gbr_end_date r,
       gb_created_by = gbr_created_by r \<rparr>"

definition group_active :: "string \<Rightarrow> group_budget \<Rightarrow> bool" where
  "group_active todayStr budget =
     (if gb_period budget \<noteq> ''daily'' then False
      else gb_start_date budget \<le> todayStr \<and> todayStr \<le> gb_end_date budget)"

text \<open>The filter of the group component: \<open>t.categories?.name === budget.category_name\<close>.\<close>

definition group_matches :: "string \<Rightarrow> group_budget \<Rightarrow> transaction \<Rightarrow> bool" where
  "group_matches todayStr budget t =
     (t_type t = expense \<and> normalizeDateStr (t_date t) = todayStr \<and>
      map_option tc_name (t_categories t) = Some (gb_category_name budget))"

definition group_budgetProgressData ::
  "string \<Rightarrow> group_budget list \<Rightarrow> transaction list \<Rightarrow> progress list" where
  "group_budgetProgressData todayStr budgets transactions =
     map (\<lambda>budget.
            progress_entry (gb_category_name budget) (gb_category_color budget)
              (sum_amounts (filter (group_matches todayStr budget) transactions))
              (gb_amount budget))
         (filter (group_active todayStr) budgets)"






subsection \<open>Personal scope (\<open>BudgetOverview\<close>)\<close>

text \<open>\<open>!budget.category_id\<close> holds of \<open>null\<close> and of the empty string.\<close>

definition personal_active :: "string \<Rightarrow> budget \<Rightarrow> bool" where
  "personal_active todayStr budget =
     (if b_period budget \<noteq> ''daily'' then False
      else if b_category_id budget = None \<or> b_category_id budget = Some [] then False
      else b_start_date budget \<le> todayStr \<and> todayStr \<le> b_end_date budget)"

definition sameNameCategoryIds :: "category list \<Rightarrow> category \<Rightarrow> uuid list" where
  "sameNameCategoryIds categories cat =
     map c_id (filter (\<lambda>c. c_type c = expense \<and> c_name c = c_name cat) categories)"

definition personal_matches :: "string \<Rightarrow> uuid list \<Rightarrow> transaction \<Rightarrow> bool" where
  "personal_matches todayStr ids t =
     (t_type t = expense \<and> normalizeDateStr (t_date t) = todayStr \<and>
      (case t_category_id t of None \<Rightarrow> False | Some cid \<Rightarrow> cid \<in> set ids))"

text \<open>
  \<open>activeBudgets.map(...)\<close> returns \<open>null\<close> for a budget whose category is not in
  \<open>categories\<close>, and \<open>.filter(Boolean)\<close> drops those entries.
\<close>

definition personal_entry ::
  "string \<Rightarrow> category list \<Rightarrow> transaction list \<Rightarrow> budget \<Rightarrow> progress option" where
  "personal_entry todayStr categories transactions budget =
     (case find (\<lambda>c. Some (c_id c) = b_category_id budget) categories of
        None \<Rightarrow> None
      | Some cat \<Rightarrow>
          Some (progress_entry (c_name cat) (c_color cat)
                  (sum_amounts (filter (personal_matches todayStr
                                          (sameNameCategoryIds categories cat)) transactions))
                  (b_amount budget)))"

definition personal_budgetProgressData ::
  "string \<Rightarrow> budget list \<Rightarrow> category list \<Rightarrow> transaction list \<Rightarrow> progress list" where
  "personal_budgetProgressData todayStr budgets categories transactions =
     List.map_filter (personal_entry todayStr categories transactions)
       (filter (personal_active todayStr) budgets)"


section \<open>The database: tables, constraints and row-level security\<close>

record group_row =
  g_id :: uuid
  g_name :: string
  g_description :: "string option"
  g_created_by :: uuid
  g_total_expenditure_limit :: "rat option"

record member_row =
  m_id :: uuid
  m_group_id :: uuid
  m_user_id :: uuid
  m_role :: string

record invitation_row =
  i_id :: uuid
  i_group_id :: uuid
  i_invited_by :: uuid
  i_invited_email :: string
  i_invited_user_id :: "uuid option"
  i_status :: string

text \<open>A row of \<open>auth.users\<close>: the account and its verified e-mail address.\<close>

record auth_user =
  au_id :: uuid
  au_email :: "string option"

text \<open>
  Tables are lists of rows in insertion order.  \<open>created_at\<close> and \<open>updated_at\<close> are
  not kept: \<open>created_at\<close> only orders fetched rows, and insertion order stands for it.
\<close>

record database =
  db_auth_users :: "auth_user list"
  db_profiles :: "profile list"
  db_groups :: "group_row list"
  db_group_members :: "member_row list"
  db_group_invitations :: "invitation_row list"
  db_categories :: "category list"
  db_budgets :: "budget list"
  db_group_budgets :: "group_budget_row list"

text \<open>The errors a statement of the client can end with, by their SQLSTATE.\<close>

datatype pg_error = unique_violation | foreign_key_violation | insufficient_privilege
  | numeric_value_out_of_range

fun code :: "pg_error \<Rightarrow> string" where
  "code unique_violation = ''23505''"
| "code foreign_key_violation = ''23503''"
| "code insufficient_privilege = ''42501''"
| "code numeric_value_out_of_range = ''22003''"

subsection \<open>Membership authority\<close>

text \<open>
  \<open>is_group_member(group_uuid, user_uuid)\<close> and \<open>is_group_admin(group_uuid, user_uuid)\<close>,
  the \<open>SECURITY DEFINER\<close> functions: they read the tables without any policy.
  The requester \<open>uid\<close> is \<open>auth.uid()\<close> of an authenticated session.
\<close>

definition is_group_member :: "database \<Rightarrow> uuid \<Rightarrow> uuid \<Rightarrow> bool" where
  "is_group_member db group_uuid user_uuid =
     list_ex (\<lambda>m. m_group_id m = group_uuid \<and> m_user_id m = user_uuid) (db_group_members db)"

definition is_group_admin :: "database \<Rightarrow> uuid \<Rightarrow> uuid \<Rightarrow> bool" where
  "is_group_admin db group_uuid user_uuid =
     (list_ex (\<lambda>g. g_id g = group_uuid \<and> g_created_by g = user_uuid) (db_groups db) \<or>
      list_ex (\<lambda>gm. m_group_id gm = group_uuid \<and> m_user_id gm = user_uuid \<and> m_role gm = ''admin'')
        (db_group_members db))"

text \<open>\<open>current_user_email()\<close>: \<open>SELECT email FROM auth.users WHERE id = auth.uid()\<close>.\<close>

definition current_user_email :: "database \<Rightarrow> uuid \<Rightarrow> string option" where
  "current_user_email db uid =
     (case find (\<lambda>a. au_id a = uid) (db_auth_users db) of
        None \<Rightarrow> None
      | Some a \<Rightarrow> au_email a)"

subsection \<open>Policies\<close>

text \<open>
  \<open>"Users can view their own transactions and group transactions"\<close>:
  \<open>auth.uid() = user_id OR (group_id IS NOT NULL AND is_group_member(group_id, auth.uid()))\<close>.
\<close>

definition transactions_select_policy :: "database \<Rightarrow> uuid \<Rightarrow> transaction \<Rightarrow> bool" where
  "transactions_select_policy db uid t =
     (uid = t_user_id t \<or>
      (case t_group_id t of None \<Rightarrow> False | Some gid \<Rightarrow> is_group_member db gid uid))"

text \<open>
  \<open>"Users can view their invitations"\<close> and \<open>"Users can update invitations sent to them or
  by them"\<close> have the same expression:
  \<open>invited_user_id = auth.uid() OR invited_by = auth.uid() OR invited_email = current_user_email()\<close>.
  A comparison with SQL \<open>NULL\<close> is not true, so a missing \<open>invited_user_id\<close> or a missing
  account e-mail satisfies no disjunct.
\<close>

definition invitations_policy :: "database \<Rightarrow> uuid \<Rightarrow> invitation_row \<Rightarrow> bool" where
  "invitations_policy db uid i =
     (i_invited_user_id i = Some uid \<or>
      i_invited_by i = uid \<or>
      Some (i_invited_email i) = current_user_email db uid)"

text \<open>\<open>"Users can create invitations for their groups"\<close>.\<close>

definition invitations_insert_policy :: "database \<Rightarrow> uuid \<Rightarrow> invitation_row \<Rightarrow> bool" where
  "invitations_insert_policy db uid i = is_group_member db (i_group_id i) uid"

text \<open>
  On \<open>group_members\<close>: \<open>"Members can view group member list"\<close>, \<open>"Users can join groups via
  invitations"\<close>, and \<open>"Admins can manage group members"\<close>, which is \<open>FOR ALL\<close> and so is
  one more permissive policy of every command.
\<close>

definition members_select_policy :: "database \<Rightarrow> uuid \<Rightarrow> member_row \<Rightarrow> bool" where
  "members_select_policy db uid m =
     (is_group_member db (m_group_id m) uid \<or> is_group_admin db (m_group_id m) uid)"

definition members_insert_policy :: "database \<Rightarrow> uuid \<Rightarrow> member_row \<Rightarrow> bool" where
  "members_insert_policy db uid m =
     (uid = m_user_id m \<or> is_group_admin db (m_group_id m) uid)"

text \<open>
  On \<open>groups\<close>: \<open>"Users can create groups"\<close>; \<open>"Users can view groups they are members of or
  created by them"\<close> together with \<open>"Invited users can view group info for their
  invitations"\<close>.  No policy allows \<open>DELETE\<close> on \<open>groups\<close>.
\<close>

definition groups_insert_policy :: "uuid \<Rightarrow> group_row \<Rightarrow> bool" where
  "groups_insert_policy uid g = (uid = g_created_by g)"

definition groups_select_policy :: "database \<Rightarrow> uuid \<Rightarrow> group_row \<Rightarrow> bool" where
  "groups_select_policy db uid g =
     (is_group_member db (g_id g) uid \<or> g_created_by g = uid \<or>
      list_ex (\<lambda>i. i_group_id i = g_id g \<and>
                    (i_invited_user_id i = Some uid \<or>
                     Some (i_invited_email i) = current_user_email db uid) \<and>
                    i_status i = ''pending'')
        (db_group_invitations db))"

subsection \<open>Statements\<close>

text \<open>
  An \<open>INSERT\<close> checks the policy of the new row, then the primary key and the unique
  constraints, then the foreign keys.  The new row's \<open>id\<close> is the value
  \<open>gen_random_uuid()\<close> returned; it is an input of the model.
\<close>

definition insert_group :: "uuid \<Rightarrow> group_row \<Rightarrow> database \<Rightarrow> pg_error + database" where
  "insert_group uid g db =
     (if \<not> groups_insert_policy uid g then Inl insufficient_privilege
      else if g_id g \<in> set (map g_id (db_groups db)) then Inl unique_violation
      else Inr (db\<lparr>db_groups := db_groups db @ [g]\<rparr>))"

text \<open>
  \<open>group_members\<close>: \<open>UNIQUE(group_id, user_id)\<close>, \<open>fk_group_members_group\<close> to \<open>groups\<close>
  and \<open>fk_group_members_profile\<close> to \<open>profiles(user_id)\<close>.
\<close>

definition insert_group_member :: "uuid \<Rightarrow> member_row \<Rightarrow> database \<Rightarrow> pg_error + database" where
  "insert_group_member uid m db =
     (if \<not> members_insert_policy db uid m then Inl insufficient_privilege
      else if m_id m \<in> set (map m_id (db_group_members db)) \<or>
              (m_group_id m, m_user_id m) \<in>
                set (map (\<lambda>x. (m_group_id x, m_user_id x)) (db_group_members db))
           then Inl unique_violation
      else if m_group_id m \<notin> set (map g_id (db_groups db)) \<or>
              m_user_id m \<notin> set (map p_user_id (db_profiles db))
           then Inl foreign_key_violation
      else Inr (db\<lparr>db_group_members := db_group_members db @ [m]\<rparr>))"

text \<open>
  \<open>group_invitations\<close>: \<open>UNIQUE(group_id, invited_email)\<close>, \<open>fk_group_invitations_group\<close>
  and \<open>fk_group_invitations_invited_by\<close> to \<open>profiles(user_id)\<close>.
\<close>

definition insert_invitation :: "uuid \<Rightarrow> invitation_row \<Rightarrow> database \<Rightarrow> pg_error + database" where
  "insert_invitation uid i db =
     (if \<not> invitations_insert_policy db uid i then Inl insufficient_privilege
      else if i_id i \<in> set (map i_id (db_group_invitations db)) \<or>
              (i_group_id i, i_invited_email i) \<in>
                set (map (\<lambda>x. (i_group_id x, i_invited_email x)) (db_group_invitations db))
           then Inl unique_violation
      else if i_group_id i \<notin> set (map g_id (db_groups db)) \<or>
              i_invited_by i \<notin> set (map p_user_id (db_profiles db))
           then Inl foreign_key_violation
      else Inr (db\<lparr>db_group_invitations := db_group_invitations db @ [i]\<rparr>))"

text \<open>
  \<open>UPDATE group_invitations SET ... WHERE id = iid\<close>.  Only rows the policy shows are
  touched (none is not an error); each new row must satisfy the policy again, and a
  changed \<open>invited_by\<close> must point to a profile.  The \<open>SET\<close> clauses of the client never
  change \<open>id\<close>, \<open>group_id\<close> or \<open>invited_email\<close>.
\<close>

definition update_invitation ::
  "uuid \<Rightarrow> uuid \<Rightarrow> (invitation_row \<Rightarrow> invitation_row) \<Rightarrow> database \<Rightarrow> pg_error + database" where
  "update_invitation uid iid f db =
     (let touched = (\<lambda>i. i_id i = iid \<and> invitations_policy db uid i);
          news = map f (filter touched (db_group_invitations db))
      in if \<not> list_all (invitations_policy db uid) news then Inl insufficient_privilege
         else if \<not> list_all (\<lambda>i. i_invited_by (f i) = i_invited_by i \<or>
                                   i_invited_by (f i) \<in> set (map p_user_id (db_profiles db)))
                     (filter touched (db_group_invitations db))
              then Inl foreign_key_violation
         else Inr (db\<lparr>db_group_invitations :=
                     map (\<lambda>i. if touched i then f i else i) (db_group_invitations db)\<rparr>))"

text \<open>
  \<open>.single()\<close> gives the row when exactly one row comes back and \<open>data: null\<close> with an
  error otherwise; \<open>.maybeSingle()\<close> differs only in that no row is not an error.  The
  callers below read \<open>data\<close> alone.
\<close>

definition single_data :: "'a list \<Rightarrow> 'a option" where
  "single_data rows = (case rows of [r] \<Rightarrow> Some r | _ \<Rightarrow> None)"

section \<open>Groups and invitations (\<open>useGroups\<close>)\<close>

text \<open>The \<open>user\<close> of \<open>useAuth\<close>: the session's account id and the e-mail the client holds.\<close>

record session_user =
  u_id :: uuid
  u_email :: "string option"

datatype failure =
    NotAuthenticated
  | InvitationAlreadyExists
  | PgError pg_error
  | InvalidCategory
  | CategoryNotFound string

subsection \<open>\<open>createGroup\<close>\<close>

text \<open>
  Two requests: the insert into \<open>groups\<close> (\<open>.select().single()\<close> returns the new row,
  which its creator may read), then the insert of the creator's \<open>admin\<close> row into
  \<open>group_members\<close>.  \<open>throw memberError\<close> goes to the \<open>catch\<close>, which reports the message
  and returns; nothing is sent to the database after it.
\<close>

definition createGroup ::
  "session_user option \<Rightarrow> uuid \<Rightarrow> uuid \<Rightarrow> string \<Rightarrow> string option \<Rightarrow> database
     \<Rightarrow> (failure + group_row) \<times> database" where
  "createGroup user new_group_id new_member_id nm description db =
     (case user of
        None \<Rightarrow> (Inl NotAuthenticated, db)
      | Some u \<Rightarrow>
          let groupData = \<lparr> g_id = new_group_id, g_name = nm, g_description = description,
                            g_created_by = u_id u, g_total_expenditure_limit = None \<rparr>
          in (case insert_group (u_id u) groupData db of
                Inl groupError \<Rightarrow> (Inl (PgError groupError), db)
              | Inr db1 \<Rightarrow>
                  (case insert_group_member (u_id u)
                          \<lparr> m_id = new_member_id, m_group_id = g_id groupData,
                            m_user_id = u_id u, m_role = ''admin'' \<rparr> db1 of
                     Inl memberError \<Rightarrow> (Inl (PgError memberError), db1)
                   | Inr db2 \<Rightarrow> (Inr groupData, db2))))"

text \<open>
  The row \<open>createGroup\<close> inserts, and the foreign key \<open>fk_group_members_group\<close> as a
  property of the database.
\<close>

definition new_group :: "uuid \<Rightarrow> string \<Rightarrow> string option \<Rightarrow> uuid \<Rightarrow> group_row" where
  "new_group gid nm description uid =
     \<lparr> g_id = gid, g_name = nm, g_description = description, g_created_by = uid,
       g_total_expenditure_limit = None \<rparr>"

definition members_reference_groups :: "database \<Rightarrow> bool" where
  "members_reference_groups db =
     list_all (\<lambda>m. m_group_id m \<in> set (map g_id (db_groups db))) (db_group_members db)"

subsection \<open>\<open>inviteToGroup\<close>\<close>

text \<open>
  The lookup \<open>.select('id, status').eq('group_id', groupId).eq('invited_email', email).single()\<close>
  runs under the select policy of \<open>group_invitations\<close>.  A new row gets the column
  defaults \<open>status = 'pending'\<close> and \<open>invited_user_id = NULL\<close>.
\<close>

definition existingInvitation :: "database \<Rightarrow> uuid \<Rightarrow> uuid \<Rightarrow> string \<Rightarrow> invitation_row option" where
  "existingInvitation db uid groupId email =
     single_data (filter (\<lambda>i. invitations_policy db uid i \<and>
                              i_group_id i = groupId \<and> i_invited_email i = email)
                    (db_group_invitations db))"

definition inviteToGroup ::
  "session_user option \<Rightarrow> uuid \<Rightarrow> uuid \<Rightarrow> string \<Rightarrow> database \<Rightarrow> (failure + unit) \<times> database" where
  "inviteToGroup user new_id groupId email db =
     (case user of
        None \<Rightarrow> (Inl NotAuthenticated, db)
      | Some u \<Rightarrow>
          (case existingInvitation db (u_id u) groupId email of
             Some existing \<Rightarrow>
               if i_status existing = ''pending'' then (Inl InvitationAlreadyExists, db)
               else (case update_invitation (u_id u) (i_id existing)
                            (\<lambda>i. i\<lparr>i_status := ''pending'', i_invited_by := u_id u\<rparr>) db of
                       Inl updateError \<Rightarrow> (Inl (PgError updateError), db)
                     | Inr db' \<Rightarrow> (Inr (), db'))
           | None \<Rightarrow>
               (case insert_invitation (u_id u)
                       \<lparr> i_id = new_id, i_group_id = groupId, i_invited_by = u_id u,
                         i_invited_email = email, i_invited_user_id = None,
                         i_status = ''pending'' \<rparr> db of
                  Inl err \<Rightarrow> (Inl (PgError err), db)
                | Inr db' \<Rightarrow> (Inr (), db'))))"

text \<open>
  What the update of the second branch does to a row, and the two constraints of
  \<open>group_invitations\<close>: the primary key and \<open>UNIQUE(group_id, invited_email)\<close>.
\<close>

definition reset_row :: "uuid \<Rightarrow> uuid \<Rightarrow> invitation_row \<Rightarrow> invitation_row" where
  "reset_row uid iid i =
     (if i_id i = iid then i\<lparr>i_status := ''pending'', i_invited_by := uid\<rparr> else i)"

definition invitations_wellformed :: "database \<Rightarrow> bool" where
  "invitations_wellformed db =
     (distinct (map i_id (db_group_invitations db)) \<and>
      distinct (map (\<lambda>i. (i_group_id i, i_invited_email i)) (db_group_invitations db)))"

subsection \<open>\<open>joinGroup\<close>\<close>

text \<open>
  Three requests: the lookup of the caller's own membership row (\<open>.maybeSingle()\<close>), the
  insert that is skipped when the lookup found a row, and the update of the invitation.
  Each request is one atomic statement; they are kept apart so that two calls can be
  interleaved.
\<close>

definition existingMember :: "database \<Rightarrow> uuid \<Rightarrow> uuid \<Rightarrow> member_row option" where
  "existingMember db uid groupId =
     single_data (filter (\<lambda>m. members_select_policy db uid m \<and>
                              m_group_id m = groupId \<and> m_user_id m = uid)
                    (db_group_members db))"

text \<open>
  \<open>if (!existingMember) { insert; if (memberError && memberError.code !== '23505') throw
  memberError }\<close>, for whatever the lookup returned.
\<close>

definition join_insert ::
  "uuid \<Rightarrow> uuid \<Rightarrow> uuid \<Rightarrow> member_row option \<Rightarrow> database \<Rightarrow> failure + database" where
  "join_insert uid new_id groupId existing db =
     (case existing of
        Some _ \<Rightarrow> Inr db
      | None \<Rightarrow>
          (case insert_group_member uid
                  \<lparr> m_id = new_id, m_group_id = groupId, m_user_id = uid, m_role = ''member'' \<rparr> db of
             Inl memberError \<Rightarrow>
               if code memberError \<noteq> ''23505'' then Inl (PgError memberError) else Inr db
           | Inr db' \<Rightarrow> Inr db'))"

definition join_update :: "uuid \<Rightarrow> uuid \<Rightarrow> database \<Rightarrow> failure + database" where
  "join_update uid invitationId db =
     (case update_invitation uid invitationId
             (\<lambda>i. i\<lparr>i_status := ''accepted'', i_invited_user_id := Some uid\<rparr>) db of
        Inl inviteError \<Rightarrow> Inl (PgError inviteError)
      | Inr db' \<Rightarrow> Inr db')"

definition joinGroup ::
  "session_user option \<Rightarrow> uuid \<Rightarrow> uuid \<Rightarrow> uuid \<Rightarrow> database \<Rightarrow> (failure + unit) \<times> database" where
  "joinGroup user new_id invitationId groupId db =
     (case user of
        None \<Rightarrow> (Inl NotAuthenticated, db)
      | Some u \<Rightarrow>
          (case join_insert (u_id u) new_id groupId (existingMember db (u_id u) groupId) db of
             Inl e \<Rightarrow> (Inl e, db)
           | Inr db1 \<Rightarrow>
               (case join_update (u_id u) invitationId db1 of
                  Inl e \<Rightarrow> (Inl e, db1)
                | Inr db2 \<Rightarrow> (Inr (), db2))))"

text \<open>
  Two calls of \<open>joinGroup\<close> by the same user for the same invitation, running at once.
  A call is at its lookup, holds the lookup's answer before its insert, is before its
  update, or has returned.
\<close>

datatype join_pc =
    AtLookup
  | AtInsert "member_row option"
  | AtUpdate
  | Returned "failure + unit"

definition join_step ::
  "uuid \<Rightarrow> uuid \<Rightarrow> uuid \<Rightarrow> uuid \<Rightarrow> join_pc \<Rightarrow> database \<Rightarrow> join_pc \<times> database" where
  "join_step uid new_id invitationId groupId pc db =
     (case pc of
        AtLookup \<Rightarrow> (AtInsert (existingMember db uid groupId), db)
      | AtInsert existing \<Rightarrow>
          (case join_insert uid new_id groupId existing db of
             Inl e \<Rightarrow> (Returned (Inl e), db)
           | Inr db' \<Rightarrow> (AtUpdate, db'))
      | AtUpdate \<Rightarrow>
          (case join_update uid invitationId db of
             Inl e \<Rightarrow> (Returned (Inl e), db)
           | Inr db' \<Rightarrow> (Returned (Inr ()), db'))
      | Returned r \<Rightarrow> (Returned r, db))"

text \<open>
  A schedule says which call moves next (\<open>True\<close>: the first).  The two calls differ only
  in the \<open>id\<close> the database generates for the row each may insert.
\<close>

fun run_two ::
  "uuid \<Rightarrow> uuid \<Rightarrow> uuid \<Rightarrow> uuid \<Rightarrow> uuid \<Rightarrow> bool list \<Rightarrow> join_pc \<times> join_pc \<times> database
     \<Rightarrow> join_pc \<times> join_pc \<times> database" where
  "run_two uid id1 id2 invitationId groupId [] cfg = cfg"
| "run_two uid id1 id2 invitationId groupId (first # sched) (pc1, pc2, db) =
     (if first
      then (case join_step uid id1 invitationId groupId pc1 db of
              (pc1', db') \<Rightarrow> run_two uid id1 id2 invitationId groupId sched (pc1', pc2, db'))
      else (case join_step uid id2 invitationId groupId pc2 db of
              (pc2', db') \<Rightarrow> run_two uid id1 id2 invitationId groupId sched (pc1, pc2', db')))"

definition membership_rows :: "database \<Rightarrow> uuid \<Rightarrow> uuid \<Rightarrow> member_row list" where
  "membership_rows db groupId uid =
     filter (\<lambda>m. m_group_id m = groupId \<and> m_user_id m = uid) (db_group_members db)"

text \<open>The row \<open>joinGroup\<close> inserts, and what its update does to a row of \<open>group_invitations\<close>.\<close>

definition joined_row :: "uuid \<Rightarrow> uuid \<Rightarrow> uuid \<Rightarrow> member_row" where
  "joined_row new_id groupId uid =
     \<lparr> m_id = new_id, m_group_id = groupId, m_user_id = uid, m_role = ''member'' \<rparr>"

definition accept_row :: "uuid \<Rightarrow> uuid \<Rightarrow> invitation_row \<Rightarrow> invitation_row" where
  "accept_row uid invitationId i =
     (if i_id i = invitationId then i\<lparr>i_status := ''accepted'', i_invited_user_id := Some uid\<rparr>
      else i)"

text \<open>How far a call has come: the number of requests it has behind it.\<close>

fun stage :: "join_pc \<Rightarrow> nat" where
  "stage AtLookup = 0"
| "stage (AtInsert _) = 1"
| "stage AtUpdate = 2"
| "stage (Returned _) = 3"

text \<open>
  What holds of the database when a user accepts an invitation the application lists for
  them: \<open>group_members\<close> satisfies \<open>UNIQUE(group_id, user_id)\<close>, the group and the user's
  profile exist (the targets of the two foreign keys), and the invitation exists and the
  update policy admits the user for it.
\<close>

definition members_unique :: "database \<Rightarrow> bool" where
  "members_unique db = distinct (map (\<lambda>m. (m_group_id m, m_user_id m)) (db_group_members db))"

definition join_ready :: "uuid \<Rightarrow> uuid \<Rightarrow> uuid \<Rightarrow> database \<Rightarrow> bool" where
  "join_ready uid invitationId groupId db =
     (members_unique db \<and>
      groupId \<in> set (map g_id (db_groups db)) \<and>
      uid \<in> set (map p_user_id (db_profiles db)) \<and>
      invitationId \<in> set (map i_id (db_group_invitations db)) \<and>
      list_all (\<lambda>j. i_id j \<noteq> invitationId \<or> invitations_policy db uid j)
        (db_group_invitations db))"

definition accepted_by :: "uuid \<Rightarrow> uuid \<Rightarrow> database \<Rightarrow> bool" where
  "accepted_by uid invitationId db =
     (invitationId \<in> set (map i_id (db_group_invitations db)) \<and>
      list_all (\<lambda>j. i_id j \<noteq> invitationId \<or>
                     (i_status j = ''accepted'' \<and> i_invited_user_id j = Some uid))
        (db_group_invitations db))"

text \<open>What a call of \<open>joinGroup\<close> has established by the time it stands at a request.\<close>

definition call_ok :: "uuid \<Rightarrow> uuid \<Rightarrow> uuid \<Rightarrow> uuid \<Rightarrow> join_pc \<Rightarrow> database \<Rightarrow> bool" where
  "call_ok uid invitationId groupId new_id pc db =
     (case pc of
        AtLookup \<Rightarrow> new_id \<notin> set (map m_id (db_group_members db))
      | AtInsert None \<Rightarrow> new_id \<notin> set (map m_id (db_group_members db))
      | AtInsert (Some _) \<Rightarrow> membership_rows db groupId uid \<noteq> []
      | AtUpdate \<Rightarrow> membership_rows db groupId uid \<noteq> []
      | Returned r \<Rightarrow>
          r = Inr () \<and> membership_rows db groupId uid \<noteq> [] \<and> accepted_by uid invitationId db)"

subsection \<open>\<open>declineInvitation\<close>\<close>

definition declineInvitation :: "uuid \<Rightarrow> uuid \<Rightarrow> database \<Rightarrow> (failure + unit) \<times> database" where
  "declineInvitation uid invitationId db =
     (case update_invitation uid invitationId (\<lambda>i. i\<lparr>i_status := ''declined''\<rparr>) db of
        Inl err \<Rightarrow> (Inl (PgError err), db)
      | Inr db' \<Rightarrow> (Inr (), db'))"

subsection \<open>\<open>fetchInvitations\<close>\<close>

text \<open>
  Two selects under the select policy, both with \<open>.eq('status', 'pending')\<close>: one with
  \<open>.eq('invited_user_id', user.id)\<close>, one with \<open>.eq('invited_email', user.email || '')\<close> and
  \<open>.is('invited_user_id', null)\<close>.  The e-mail of the second filter is the client's.
\<close>

definition fetchInvitations :: "session_user option \<Rightarrow> database \<Rightarrow> invitation_row list" where
  "fetchInvitations user db =
     (case user of
        None \<Rightarrow> []
      | Some u \<Rightarrow>
          (let visible = filter (invitations_policy db (u_id u)) (db_group_invitations db);
               userInvites = filter (\<lambda>i. i_status i = ''pending'' \<and>
                                          i_invited_user_id i = Some (u_id u)) visible;
               emailInvites = filter (\<lambda>i. i_status i = ''pending'' \<and>
                                           i_invited_email i = or_default (u_email u) [] \<and>
                                           i_invited_user_id i = None) visible
           in userInvites @ emailInvites))"

section \<open>Clock and calendar of the client\<close>

text \<open>
  A JavaScript \<open>Date\<close> is an instant: milliseconds since 1970-01-01T00:00Z.  The
  client's environment is the current instant, the offset of its local time zone from UTC
  in minutes that is in force around that instant (330 in India, 0 in UTC, negative in the
  Americas), and the offset that the same zone has at midnight of 31 December of the
  current local year.  The two differ where the zone changes its offset during the year:
  New York is at -240 in June and at -300 in December, Casablanca at 0 during Ramadan and
  at 60 otherwise.  The calendar below is the proleptic Gregorian one from 1970 on; dates
  are rendered with a four-digit year, so the model covers the years 1970 to 9999.
\<close>

record js_env =
  env_now :: int
  env_offset :: int
  env_offset_dec31 :: int

definition leap_year :: "nat \<Rightarrow> bool" where
  "leap_year y = (y mod 4 = 0 \<and> (y mod 100 \<noteq> 0 \<or> y mod 400 = 0))"

definition days_in_year :: "nat \<Rightarrow> nat" where
  "days_in_year y = (if leap_year y then 366 else 365)"

definition days_in_month :: "bool \<Rightarrow> nat \<Rightarrow> nat" where
  "days_in_month lp m =
     (if m = 2 then (if lp then 29 else 28)
      else if m = 4 \<or> m = 6 \<or> m = 9 \<or> m = 11 then 30
      else 31)"

text \<open>The year that holds day \<open>d\<close>, counted from 1 January of year \<open>y\<close>, and the day in it.\<close>

function year_from :: "nat \<Rightarrow> nat \<Rightarrow> nat \<times> nat" where
  "year_from y d =
     (if d < days_in_year y then (y, d) else year_from (Suc y) (d - days_in_year y))"
  by pat_completeness auto
termination
  by (relation "measure (\<lambda>(y, d). d)") (auto simp: days_in_year_def)

declare year_from.simps [simp del]

text \<open>The month (1 to 12) that holds day \<open>d\<close> of the year, and the day of the month.\<close>

function month_from :: "bool \<Rightarrow> nat \<Rightarrow> nat \<Rightarrow> nat \<times> nat" where
  "month_from lp m d =
     (if 12 \<le> m \<or> d < days_in_month lp m then (m, Suc d)
      else month_from lp (Suc m) (d - days_in_month lp m))"
  by pat_completeness auto
termination
  by (relation "measure (\<lambda>(lp, m, d). 12 - m)") auto

declare month_from.simps [simp del]

definition civil_from_days :: "nat \<Rightarrow> nat \<times> nat \<times> nat" where
  "civil_from_days n =
     (case year_from 1970 n of
        (y, doy) \<Rightarrow> (case month_from (leap_year y) 1 doy of (m, d) \<Rightarrow> (y, m, d)))"

definition days_from_civil :: "nat \<Rightarrow> nat \<Rightarrow> nat \<Rightarrow> nat" where
  "days_from_civil y m d =
     sum_list (map days_in_year [1970..<y]) +
     sum_list (map (days_in_month (leap_year y)) [1..<m]) + (d - 1)"

definition ms_per_day :: int where
  "ms_per_day = 86400000"

definition ms_per_minute :: int where
  "ms_per_minute = 60000"

definition day_number :: "int \<Rightarrow> nat" where
  "day_number t = nat (t div ms_per_day)"

definition digit :: "nat \<Rightarrow> char" where
  "digit n = ''0123456789'' ! (n mod 10)"

definition format_ymd :: "nat \<times> nat \<times> nat \<Rightarrow> string" where
  "format_ymd ymd =
     (case ymd of (y, m, d) \<Rightarrow>
        [digit (y div 1000), digit (y div 100), digit (y div 10), digit y] @ ''-'' @
        [digit (m div 10), digit m] @ ''-'' @ [digit (d div 10), digit d])"

text \<open>\<open>d.toISOString().split('T')[0]\<close>: the date of the instant in UTC.\<close>

definition toISODate :: "int \<Rightarrow> string" where
  "toISODate t = format_ymd (civil_from_days (day_number t))"

text \<open>\<open>format(d, 'yyyy-MM-dd')\<close> of date-fns: the date of the instant in the client's zone.\<close>

definition format_local :: "js_env \<Rightarrow> int \<Rightarrow> string" where
  "format_local env t = toISODate (t + env_offset env * ms_per_minute)"

text \<open>\<open>d.getFullYear()\<close>: the year of the instant in the client's zone.\<close>

definition getFullYear :: "js_env \<Rightarrow> int \<Rightarrow> nat" where
  "getFullYear env t = fst (civil_from_days (day_number (t + env_offset env * ms_per_minute)))"

text \<open>
  \<open>new Date(y, 11, 31)\<close>, for \<open>y\<close> the current local year: midnight of 31 December of
  year \<open>y\<close> in the client's zone, an instant that the offset in force on that day
  determines, not the one in force now.
\<close>

definition local_midnight_dec31 :: "js_env \<Rightarrow> nat \<Rightarrow> int" where
  "local_midnight_dec31 env y =
     int (days_from_civil y 12 31) * ms_per_day - env_offset_dec31 env * ms_per_minute"

text \<open>
  \<open>INDIAN_TIMEZONE = 'Asia/Kolkata'\<close> is UTC+05:30 all year.
  \<open>getCurrentDateIST\<close> is \<open>new Date(new Date().toLocaleString("en-US", {timeZone:
  INDIAN_TIMEZONE}))\<close>: the wall clock of India, to the second, read back as a time of the
  client's zone.  \<open>formatDateStringIST\<close> is \<open>formatInTimeZone(d, INDIAN_TIMEZONE,
  'yyyy-MM-dd')\<close>.
\<close>

definition ist_offset :: int where
  "ist_offset = 330"

definition getCurrentDateIST :: "js_env \<Rightarrow> int" where
  "getCurrentDateIST env =
     (env_now env div 1000) * 1000 + ist_offset * ms_per_minute - env_offset env * ms_per_minute"

definition formatDateStringIST :: "int \<Rightarrow> string" where
  "formatDateStringIST t = toISODate (t + ist_offset * ms_per_minute)"

text \<open>The \<open>todayStr\<close> of \<open>BudgetOverview\<close> and the one of \<open>GroupBudgetOverview\<close>.\<close>

definition personal_todayStr :: "js_env \<Rightarrow> string" where
  "personal_todayStr env = formatDateStringIST (getCurrentDateIST env)"

definition group_todayStr :: "js_env \<Rightarrow> string" where
  "group_todayStr env = format_local env (env_now env)"

text \<open>The components as rendered at a moment of the client's clock.\<close>

definition BudgetOverview_budgetProgressData ::
  "js_env \<Rightarrow> budget list \<Rightarrow> category list \<Rightarrow> transaction list \<Rightarrow> progress list" where
  "BudgetOverview_budgetProgressData env =
     personal_budgetProgressData (personal_todayStr env)"

definition GroupBudgetOverview_budgetProgressData ::
  "js_env \<Rightarrow> group_budget list \<Rightarrow> transaction list \<Rightarrow> progress list" where
  "GroupBudgetOverview_budgetProgressData env =
     group_budgetProgressData (group_todayStr env)"

section \<open>Setting a limit\<close>

subsection \<open>Statements on \<open>budgets\<close> and \<open>group_budgets\<close>\<close>








text \<open>
  \<open>fetchGroupBudgets\<close>: the group's rows with their categories, newest first, each
  transformed.  A category that a group budget of the requester's group refers to is
  readable by the requester (\<open>"Group members can view categories used in group
  budgets"\<close>), so the join finds it whenever it exists.
\<close>

definition joined_category :: "database \<Rightarrow> group_budget_row \<Rightarrow> category option" where
  "joined_category db r =
     (case gbr_category_id r of None \<Rightarrow> None
      | Some cid \<Rightarrow> find (\<lambda>c. c_id c = cid) (db_categories db))"


subsection \<open>Personal scope (\<open>useBudgets\<close>)\<close>




subsection \<open>Group scope (\<open>useGroupBudgets\<close>)\<close>


subsection \<open>Rows written\<close>





section \<open>Example data\<close>

definition alice :: uuid where "alice = ''00000000-0000-4000-8000-00000000000a''"
definition bob :: uuid where "bob = ''00000000-0000-4000-8000-00000000000b''"
definition xavier :: uuid where "xavier = ''00000000-0000-4000-8000-00000000000c''"
definition household :: uuid where "household = ''00000000-0000-4000-8000-000000000010''"
definition food_of_alice :: uuid where "food_of_alice = ''00000000-0000-4000-8000-0000000000fa''"
definition food_of_bob :: uuid where "food_of_bob = ''00000000-0000-4000-8000-0000000000fb''"
definition row1 :: uuid where "row1 = ''00000000-0000-4000-8000-000000000101''"
definition row2 :: uuid where "row2 = ''00000000-0000-4000-8000-000000000102''"
definition row3 :: uuid where "row3 = ''00000000-0000-4000-8000-000000000103''"
definition row4 :: uuid where "row4 = ''00000000-0000-4000-8000-000000000104''"
definition row5 :: uuid where "row5 = ''00000000-0000-4000-8000-000000000105''"


text \<open>Two members, each with a category row of their own named Food.\<close>

definition food_category :: "uuid \<Rightarrow> uuid \<Rightarrow> category" where
  "food_category cid owner =
     \<lparr> c_id = cid, c_user_id = owner, c_name = ''Food'', c_color = ''#ef4444'', c_type = expense \<rparr>"

definition food_budget :: group_budget where
  "food_budget =
     transform_group_budget
       \<lparr> gbr_id = row1, gbr_group_id = household, gbr_category_id = Some food_of_alice,
         gbr_amount = 500, gbr_period = ''daily'', gbr_start_date = ''2025-01-01'',
         gbr_end_date = ''2025-12-31'', gbr_created_by = alice \<rparr>
       (Some (food_category food_of_alice alice))"

definition food_expense :: "uuid \<Rightarrow> uuid \<Rightarrow> uuid \<Rightarrow> rat \<Rightarrow> transaction" where
  "food_expense tid owner cid amount =
     \<lparr> t_id = tid, t_amount = amount, t_type = expense, t_date = ''2025-06-01'',
       t_category_id = Some cid, t_user_id = owner, t_group_id = Some household,
       t_categories = Some \<lparr> tc_name = ''Food'', tc_color = ''#ef4444'', tc_icon = ''utensils'' \<rparr> \<rparr>"

definition food_transactions :: "transaction list" where
  "food_transactions =
     [food_expense row2 alice food_of_alice 300, food_expense row3 bob food_of_bob 250]"










text \<open>
  A household group created by Alice, with Alice (admin) and Bob (member) in it.  Alice,
  Bob and Xavier have accounts; Alice and Bob have profiles.
\<close>

definition account :: "uuid \<Rightarrow> string \<Rightarrow> auth_user" where
  "account uid email = \<lparr> au_id = uid, au_email = Some email \<rparr>"

definition session :: "uuid \<Rightarrow> string \<Rightarrow> session_user" where
  "session uid email = \<lparr> u_id = uid, u_email = Some email \<rparr>"

definition plain_profile :: "uuid \<Rightarrow> profile" where
  "plain_profile uid = \<lparr> p_user_id = uid, p_total_expenditure_limit = None \<rparr>"

definition household_db :: database where
  "household_db =
     \<lparr> db_auth_users = [account alice ''alice@example.com'', account bob ''bob@example.com'',
                         account xavier ''xavier@example.com''],
       db_profiles = [plain_profile alice, plain_profile bob],
       db_groups = [\<lparr> g_id = household, g_name = ''Household'', g_description = None,
                       g_created_by = alice, g_total_expenditure_limit = None \<rparr>],
       db_group_members =
         [\<lparr> m_id = row1, m_group_id = household, m_user_id = alice, m_role = ''admin'' \<rparr>,
          \<lparr> m_id = row2, m_group_id = household, m_user_id = bob, m_role = ''member'' \<rparr>],
       db_group_invitations = [],
       db_categories = [],
       db_budgets = [],
       db_group_budgets = [] \<rparr>"

text \<open>A personal transaction of Alice.\<close>

definition personal_expense :: transaction where
  "personal_expense = (food_expense row3 alice food_of_alice 300)\<lparr>t_group_id := None\<rparr>"

text \<open>Alice's invitation of Xavier's address, by the state it is in.\<close>

definition invitation_of_xavier :: "uuid option \<Rightarrow> string \<Rightarrow> invitation_row" where
  "invitation_of_xavier invited status =
     \<lparr> i_id = row3, i_group_id = household, i_invited_by = alice,
       i_invited_email = ''xavier@example.com'', i_invited_user_id = invited,
       i_status = status \<rparr>"


text \<open>The household once Xavier has a profile and a pending invitation to his address.\<close>

definition invited_db :: database where
  "invited_db =
     household_db\<lparr> db_profiles := [plain_profile alice, plain_profile bob, plain_profile xavier],
                   db_group_invitations := [invitation_of_xavier None ''pending''] \<rparr>"


text \<open>
  The same household after Xavier declined the invitation, and after he accepted it.
\<close>

definition declined_db :: database where
  "declined_db = invited_db\<lparr>db_group_invitations := [invitation_of_xavier None ''declined'']\<rparr>"

definition accepted_db :: database where
  "accepted_db =
     invited_db\<lparr> db_group_members := db_group_members invited_db @ [joined_row row4 household xavier],
                 db_group_invitations := [invitation_of_xavier (Some xavier) ''accepted''] \<rparr>"



definition utc_evening :: js_env where
  "utc_evening = \<lparr> env_now = 1748808000000, env_offset = 0, env_offset_dec31 = 0 \<rparr>"

definition new_york_afternoon :: js_env where
  "new_york_afternoon =
     \<lparr> env_now = 1748808000000, env_offset = - 240, env_offset_dec31 = - 300 \<rparr>"



section \<open>Verified properties\<close>

lemmas names = alice_def bob_def xavier_def household_def food_of_alice_def food_of_bob_def
  row1_def row2_def row3_def row4_def row5_def

subsection \<open>Budget limit engine\<close>

lemma foldl_plus_sum_list:
  "foldl (\<lambda>sum t. sum + f t) a ts = a + sum_list (map f ts)" for a :: rat
  by (induction ts arbitrary: a) (simp_all add: add.assoc)

lemma sum_amounts_sum_list: "sum_amounts ts = sum_list (map t_amount ts)"
  by (simp add: sum_amounts_def foldl_plus_sum_list)

lemma pr_spent_progress_entry [simp]: "pr_spent (progress_entry nm col spend amount) = spend"
  by (simp add: progress_entry_def Let_def)

lemma pr_name_progress_entry [simp]: "pr_name (progress_entry nm col spend amount) = nm"
  by (simp add: progress_entry_def Let_def)

lemma pr_budget_progress_entry [simp]: "pr_budget (progress_entry nm col spend amount) = amount"
  by (simp add: progress_entry_def Let_def)

lemma food_budget_name: "gb_category_name food_budget = ''Food''"
  by (simp add: food_budget_def transform_group_budget_def or_default_def food_category_def)

lemma food_budget_active: "group_active ''2025-06-01'' food_budget"
  by (simp add: group_active_def food_budget_def transform_group_budget_def)

lemma food_transactions_match:
  "filter (group_matches ''2025-06-01'' food_budget) food_transactions = food_transactions"
  by (simp add: group_matches_def food_budget_name food_transactions_def food_expense_def
      normalizeDateStr_def)

lemma food_spend:
  "sum_amounts (filter (group_matches ''2025-06-01'' food_budget) food_transactions) = 550"
  by (simp add: food_transactions_match)
     (simp add: sum_amounts_def food_transactions_def food_expense_def)

text \<open>
  C1.  In group scope the spend of an active limit is the sum of the amounts of the
  group's expense transactions dated today whose category name is the limit's category
  name; neither the category id nor the owner of a transaction takes part.  With a limit
  of 500 on Food and two members who each own a Food category, 300 from one and 250 from
  the other give a spend of 550, over budget by 50.
\<close>

theorem group_spend_matches_by_category_name:
  "map (\<lambda>p. (pr_name p, pr_spent p)) (group_budgetProgressData todayStr budgets transactions) =
     map (\<lambda>budget.
            (gb_category_name budget,
             sum_list (map t_amount
               (filter (\<lambda>t. t_type t = expense \<and> normalizeDateStr (t_date t) = todayStr \<and>
                             map_option tc_name (t_categories t) = Some (gb_category_name budget))
                  transactions))))
         (filter (group_active todayStr) budgets)
   \<and> map t_category_id food_transactions = [Some food_of_alice, Some food_of_bob]
   \<and> food_of_alice \<noteq> food_of_bob
   \<and> map (\<lambda>p. (pr_name p, pr_budget p, pr_spent p, pr_isOverBudget p, pr_overspent p))
        (group_budgetProgressData ''2025-06-01'' [food_budget] food_transactions) =
      [(''Food'', 500, 550, True, 50)]"
proof -
  have general: "map (\<lambda>p. (pr_name p, pr_spent p))
      (group_budgetProgressData todayStr budgets transactions) =
     map (\<lambda>budget.
            (gb_category_name budget,
             sum_list (map t_amount
               (filter (\<lambda>t. t_type t = expense \<and> normalizeDateStr (t_date t) = todayStr \<and>
                             map_option tc_name (t_categories t) = Some (gb_category_name budget))
                  transactions))))
         (filter (group_active todayStr) budgets)"
  proof -
    have "group_matches todayStr budget =
        (\<lambda>t. t_type t = expense \<and> normalizeDateStr (t_date t) = todayStr \<and>
             map_option tc_name (t_categories t) = Some (gb_category_name budget))" for budget
      by (rule ext) (simp only: group_matches_def)
    then show ?thesis
      by (simp only: group_budgetProgressData_def sum_amounts_sum_list map_map o_def
          pr_name_progress_entry pr_spent_progress_entry)
  qed
  have ids: "map t_category_id food_transactions = [Some food_of_alice, Some food_of_bob]"
    by (simp add: food_transactions_def food_expense_def)
  have distinct_ids: "food_of_alice \<noteq> food_of_bob"
    by (simp add: food_of_alice_def food_of_bob_def)
  have amount: "gb_amount food_budget = 500"
    by (simp add: food_budget_def transform_group_budget_def)
  have example: "map (\<lambda>p. (pr_name p, pr_budget p, pr_spent p, pr_isOverBudget p, pr_overspent p))
        (group_budgetProgressData ''2025-06-01'' [food_budget] food_transactions) =
      [(''Food'', 500, 550, True, 50)]"
    by (simp add: group_budgetProgressData_def food_budget_active food_spend food_budget_name
        amount)
       (simp add: progress_entry_def category_percentage_def js_div_def Let_def)
  from general ids distinct_ids example show ?thesis by blast
qed



lemma pr_actualPercentage_progress_entry [simp]:
  "pr_actualPercentage (progress_entry nm col spend amount) = category_percentage spend amount"
  by (simp add: progress_entry_def Let_def)

lemma pr_percentage_progress_entry [simp]:
  "pr_percentage (progress_entry nm col spend amount) =
     js_min (category_percentage spend amount) 100"
  by (simp add: progress_entry_def Let_def)









subsection \<open>Access control\<close>

text \<open>
  C2.  A transaction without a group is readable by its owner alone.  A transaction of a
  group is readable by its owner and by every member of the group, whoever owns it;
  putting a transaction into a group changes its \<open>group_id\<close> and leaves \<open>user_id\<close> as it was.
\<close>

theorem transaction_visibility:
  "(t_group_id t = None \<longrightarrow> (transactions_select_policy db uid t \<longleftrightarrow> uid = t_user_id t))
   \<and> (t_group_id t = Some g \<longrightarrow>
        (transactions_select_policy db uid t \<longleftrightarrow> uid = t_user_id t \<or> is_group_member db g uid))
   \<and> t_user_id (t\<lparr>t_group_id := Some g\<rparr>) = t_user_id t
   \<and> (is_group_member db g uid \<longrightarrow> transactions_select_policy db uid (t\<lparr>t_group_id := Some g\<rparr>))
   \<and> transactions_select_policy db (t_user_id t) (t\<lparr>t_group_id := Some g\<rparr>)"
  by (simp add: transactions_select_policy_def)

theorem transaction_visibility_witness:
  "t_group_id personal_expense = None
   \<and> t_user_id personal_expense = alice
   \<and> transactions_select_policy household_db alice personal_expense
   \<and> \<not> transactions_select_policy household_db bob personal_expense
   \<and> is_group_member household_db household bob
   \<and> t_group_id (personal_expense\<lparr>t_group_id := Some household\<rparr>) = Some household
   \<and> transactions_select_policy household_db bob (personal_expense\<lparr>t_group_id := Some household\<rparr>)
   \<and> \<not> transactions_select_policy household_db xavier
         (personal_expense\<lparr>t_group_id := Some household\<rparr>)
   \<and> t_user_id (personal_expense\<lparr>t_group_id := Some household\<rparr>) = alice"
proof -
  have a: "t_group_id personal_expense = None" "t_user_id personal_expense = alice"
    by (simp_all add: personal_expense_def food_expense_def)
  have b: "is_group_member household_db household bob"
    "\<not> is_group_member household_db household xavier"
    by (simp_all add: is_group_member_def household_db_def names)
  have c: "alice \<noteq> bob" "xavier \<noteq> alice" by (simp_all add: names)
  have d: "t_group_id (personal_expense\<lparr>t_group_id := Some household\<rparr>) = Some household"
    by simp
  from a b c d
    transaction_visibility [of personal_expense household_db alice household]
    transaction_visibility [of personal_expense household_db bob household]
    transaction_visibility [of "personal_expense\<lparr>t_group_id := Some household\<rparr>" household_db
      xavier household]
  show ?thesis by simp
qed

text \<open>
  C4, as the policy has it.  An invitation is readable by a user exactly when
  \<open>invited_user_id\<close> is the user, or \<open>invited_by\<close> is the user, or \<open>invited_email\<close> is the
  e-mail address that \<open>auth.users\<close> holds for the user; the last does not ask whether
  \<open>invited_user_id\<close> is still null.  The address comes from \<open>auth.users\<close> by the session's
  user id: the e-mail the client holds only narrows what \<open>fetchInvitations\<close> lists and never
  widens what can be read.
\<close>

theorem invitation_readable_iff:
  "(invitations_policy db uid i \<longleftrightarrow>
      i_invited_user_id i = Some uid \<or> i_invited_by i = uid \<or>
      (\<exists>a. find (\<lambda>a. au_id a = uid) (db_auth_users db) = Some a \<and>
           au_email a = Some (i_invited_email i)))
   \<and> set (fetchInvitations (Some u) db) \<subseteq>
        {i. i \<in> set (db_group_invitations db) \<and> invitations_policy db (u_id u) i}
   \<and> invitations_policy db (u_id (u\<lparr>u_email := client_email\<rparr>)) i =
        invitations_policy db (u_id u) i"
proof -
  have "current_user_email db uid = Some e \<longleftrightarrow>
      (\<exists>a. find (\<lambda>a. au_id a = uid) (db_auth_users db) = Some a \<and> au_email a = Some e)" for e
    by (auto simp: current_user_email_def split: option.splits)
  then have policy: "invitations_policy db uid i \<longleftrightarrow>
      i_invited_user_id i = Some uid \<or> i_invited_by i = uid \<or>
      (\<exists>a. find (\<lambda>a. au_id a = uid) (db_auth_users db) = Some a \<and>
           au_email a = Some (i_invited_email i))"
    unfolding invitations_policy_def by (metis (no_types))
  have listed: "set (fetchInvitations (Some u) db) \<subseteq>
        {i. i \<in> set (db_group_invitations db) \<and> invitations_policy db (u_id u) i}"
    by (auto simp: fetchInvitations_def Let_def)
  from policy listed show ?thesis by simp
qed

subsection \<open>Accepting an invitation\<close>


lemma invitations_policy_members_update:
  "invitations_policy (db\<lparr>db_group_members := ms\<rparr>) uid j = invitations_policy db uid j"
  by (simp add: invitations_policy_def current_user_email_def)

lemma invitations_policy_invitations_update:
  "invitations_policy (db\<lparr>db_group_invitations := js\<rparr>) uid j = invitations_policy db uid j"
  by (simp add: invitations_policy_def current_user_email_def)

lemma single_data_Some: "single_data rows = Some r \<Longrightarrow> rows = [r]"
  by (auto simp: single_data_def split: list.splits)

lemma existingMember_Some:
  assumes "existingMember db uid g = Some m"
  shows "membership_rows db g uid \<noteq> []"
proof -
  from assms have "filter (\<lambda>m. members_select_policy db uid m \<and>
      m_group_id m = g \<and> m_user_id m = uid) (db_group_members db) = [m]"
    unfolding existingMember_def by (rule single_data_Some)
  then have "m \<in> set (filter (\<lambda>m. members_select_policy db uid m \<and>
      m_group_id m = g \<and> m_user_id m = uid) (db_group_members db))"
    by simp
  then have "m \<in> set (membership_rows db g uid)"
    by (simp add: membership_rows_def)
  then show ?thesis by auto
qed

lemma membership_rows_pairs:
  "(g, uid) \<in> (\<lambda>x. (m_group_id x, m_user_id x)) ` set (db_group_members db) \<longleftrightarrow>
     membership_rows db g uid \<noteq> []"
  by (auto simp: membership_rows_def filter_empty_conv)

lemma filter_key_distinct:
  "distinct (map f xs) \<Longrightarrow> length (filter (\<lambda>x. f x = k) xs) \<le> 1"
proof (induction xs)
  case Nil
  show ?case by simp
next
  case (Cons a xs)
  show ?case
  proof (cases "f a = k")
    case True
    with Cons.prems have "filter (\<lambda>x. f x = k) xs = []"
      by (auto simp: filter_empty_conv image_iff)
    with True show ?thesis by simp
  next
    case False
    with Cons show ?thesis by simp
  qed
qed

lemma membership_rows_le_1:
  assumes "members_unique db"
  shows "length (membership_rows db g uid) \<le> 1"
proof -
  have "length (filter (\<lambda>m. (m_group_id m, m_user_id m) = (g, uid)) (db_group_members db)) \<le> 1"
    using assms unfolding members_unique_def by (rule filter_key_distinct)
  then show ?thesis
    by (simp add: membership_rows_def)
qed

lemma join_insert_result:
  assumes "join_ready uid iid g db"
  shows "join_insert uid nid g seen db =
     Inr (if seen = None \<and> nid \<notin> set (map m_id (db_group_members db)) \<and>
             membership_rows db g uid = []
          then db\<lparr>db_group_members := db_group_members db @ [joined_row nid g uid]\<rparr>
          else db)"
proof (cases seen)
  case (Some m)
  then show ?thesis by (simp add: join_insert_def)
next
  case None
  from assms have fk: "g \<in> set (map g_id (db_groups db))"
    "uid \<in> set (map p_user_id (db_profiles db))"
    by (simp_all add: join_ready_def)
  show ?thesis
    using None fk
    by (simp add: join_insert_def insert_group_member_def members_insert_policy_def
        joined_row_def membership_rows_pairs)
qed

lemma join_update_result:
  assumes "join_ready uid iid g db"
  shows "join_update uid iid db =
     Inr (db\<lparr>db_group_invitations := map (accept_row uid iid) (db_group_invitations db)\<rparr>)"
proof -
  let ?f = "\<lambda>i. i\<lparr>i_status := ''accepted'', i_invited_user_id := Some uid\<rparr>"
  let ?touched = "\<lambda>i. i_id i = iid \<and> invitations_policy db uid i"
  from assms have admitted: "\<And>j. j \<in> set (db_group_invitations db) \<Longrightarrow> i_id j = iid \<Longrightarrow>
      invitations_policy db uid j"
    by (auto simp: join_ready_def list_all_iff)
  have new_ok: "invitations_policy db uid (?f i)" for i
    by (simp add: invitations_policy_def)
  have same: "map (\<lambda>i. if ?touched i then ?f i else i) (db_group_invitations db) =
      map (accept_row uid iid) (db_group_invitations db)"
    by (rule map_cong) (auto simp: accept_row_def admitted)
  show ?thesis
    unfolding join_update_def update_invitation_def Let_def
    by (simp add: list_all_iff new_ok same)
qed


lemma join_ready_after_insert:
  assumes "join_ready uid iid g db" "membership_rows db g uid = []"
  shows "join_ready uid iid g (db\<lparr>db_group_members := db_group_members db @ [joined_row nid g uid]\<rparr>)"
proof -
  from assms(2) have "(g, uid) \<notin> (\<lambda>x. (m_group_id x, m_user_id x)) ` set (db_group_members db)"
    by (simp add: membership_rows_pairs)
  with assms(1) show ?thesis
    by (simp add: join_ready_def members_unique_def joined_row_def
        invitations_policy_members_update)
qed

lemma i_id_accept_row [simp]: "i_id (accept_row uid iid i) = i_id i"
  by (simp add: accept_row_def)

lemma join_ready_after_update:
  assumes "join_ready uid iid g db"
  shows "join_ready uid iid g
    (db\<lparr>db_group_invitations := map (accept_row uid iid) (db_group_invitations db)\<rparr>)"
proof -
  have "invitations_policy db uid (accept_row uid iid j)" if "i_id j = iid" for j
    using that by (simp add: accept_row_def invitations_policy_def)
  with assms show ?thesis
    by (auto simp: join_ready_def members_unique_def list_all_iff o_def
        invitations_policy_invitations_update)
qed

lemma accepted_after_update:
  assumes "iid \<in> set (map i_id (db_group_invitations db))"
  shows "accepted_by uid iid
    (db\<lparr>db_group_invitations := map (accept_row uid iid) (db_group_invitations db)\<rparr>)"
  using assms by (auto simp: accepted_by_def list_all_iff o_def accept_row_def)

lemma accepted_stays:
  assumes "accepted_by uid iid db"
  shows "map (accept_row uid iid) (db_group_invitations db) = db_group_invitations db"
proof -
  have "accept_row uid iid j = j" if "j \<in> set (db_group_invitations db)" for j
    using that assms by (auto simp: accepted_by_def list_all_iff accept_row_def)
  then show ?thesis by (simp add: map_idI)
qed

lemma call_ok_after_update:
  assumes "call_ok uid iid g nid pc db"
  shows "call_ok uid iid g nid pc
    (db\<lparr>db_group_invitations := map (accept_row uid iid) (db_group_invitations db)\<rparr>)"
proof (cases pc)
  case (Returned r)
  with assms have acc: "accepted_by uid iid db" by (simp add: call_ok_def)
  from assms Returned show ?thesis
    by (simp add: call_ok_def accepted_stays [OF acc] membership_rows_def)
qed (use assms in \<open>auto simp: call_ok_def membership_rows_def split: option.splits\<close>)

lemma call_ok_after_insert:
  assumes "call_ok uid iid g nid' pc db" "nid \<noteq> nid'"
  shows "call_ok uid iid g nid' pc
    (db\<lparr>db_group_members := db_group_members db @ [joined_row nid g uid]\<rparr>)"
  using assms
  by (cases pc)
     (auto simp: call_ok_def membership_rows_def joined_row_def accepted_by_def
       split: option.splits)

lemma rows_after_insert:
  "membership_rows (db\<lparr>db_group_members := db_group_members db @ [joined_row nid g uid]\<rparr>)
     g uid \<noteq> []"
  by (simp add: membership_rows_def joined_row_def)


lemma join_step_invariant:
  assumes ready: "join_ready uid iid g db"
    and mine: "call_ok uid iid g nid pc db"
    and other: "call_ok uid iid g nid' pc' db"
    and ids: "nid \<noteq> nid'"
    and step: "join_step uid nid iid g pc db = (pc2, db2)"
  shows "join_ready uid iid g db2 \<and> call_ok uid iid g nid pc2 db2 \<and> call_ok uid iid g nid' pc' db2"
proof (cases pc)
  case AtLookup
  with step have eq: "pc2 = AtInsert (existingMember db uid g)" "db2 = db"
    by (auto simp: join_step_def)
  have "call_ok uid iid g nid (AtInsert (existingMember db uid g)) db"
  proof (cases "existingMember db uid g")
    case None
    with mine AtLookup show ?thesis by (simp add: call_ok_def)
  next
    case (Some m)
    then show ?thesis by (simp add: call_ok_def existingMember_Some)
  qed
  with eq ready other show ?thesis by simp
next
  case (AtInsert seen)
  let ?db' = "db\<lparr>db_group_members := db_group_members db @ [joined_row nid g uid]\<rparr>"
  show ?thesis
  proof (cases "seen = None \<and> nid \<notin> set (map m_id (db_group_members db)) \<and>
      membership_rows db g uid = []")
    case True
    with step AtInsert have eq: "pc2 = AtUpdate" "db2 = ?db'"
      by (auto simp: join_step_def join_insert_result [OF ready])
    from True have "join_ready uid iid g ?db'"
      by (simp add: join_ready_after_insert [OF ready])
    moreover have "call_ok uid iid g nid AtUpdate ?db'"
      by (simp add: call_ok_def rows_after_insert)
    moreover have "call_ok uid iid g nid' pc' ?db'"
      using other ids by (rule call_ok_after_insert)
    ultimately show ?thesis using eq by simp
  next
    case False
    with step AtInsert have eq: "pc2 = AtUpdate" "db2 = db"
      by (auto simp: join_step_def join_insert_result [OF ready])
    from False mine AtInsert have "membership_rows db g uid \<noteq> []"
      by (cases seen) (auto simp: call_ok_def)
    then have "call_ok uid iid g nid AtUpdate db" by (simp add: call_ok_def)
    with eq ready other show ?thesis by simp
  qed
next
  case AtUpdate
  let ?db' = "db\<lparr>db_group_invitations := map (accept_row uid iid) (db_group_invitations db)\<rparr>"
  from step AtUpdate have eq: "pc2 = Returned (Inr ())" "db2 = ?db'"
    by (auto simp: join_step_def join_update_result [OF ready])
  from ready have present: "iid \<in> set (map i_id (db_group_invitations db))"
    by (simp add: join_ready_def)
  from mine AtUpdate have rows: "membership_rows ?db' g uid \<noteq> []"
    by (simp add: call_ok_def membership_rows_def)
  have "call_ok uid iid g nid (Returned (Inr ())) ?db'"
    using rows accepted_after_update [OF present] by (simp add: call_ok_def)
  moreover have "call_ok uid iid g nid' pc' ?db'"
    using other by (rule call_ok_after_update)
  moreover have "join_ready uid iid g ?db'"
    using ready by (rule join_ready_after_update)
  ultimately show ?thesis using eq by simp
next
  case (Returned r)
  with step have "pc2 = pc" "db2 = db" by (auto simp: join_step_def)
  with ready mine other show ?thesis by simp
qed

lemma run_two_invariant:
  assumes "join_ready uid iid g db" "call_ok uid iid g id1 pc1 db" "call_ok uid iid g id2 pc2 db"
    "id1 \<noteq> id2" "run_two uid id1 id2 iid g sched (pc1, pc2, db) = (pc1', pc2', db')"
  shows "join_ready uid iid g db' \<and> call_ok uid iid g id1 pc1' db' \<and> call_ok uid iid g id2 pc2' db'"
  using assms
proof (induction sched arbitrary: pc1 pc2 db)
  case Nil
  then show ?case by simp
next
  case (Cons first sched)
  show ?case
  proof (cases first)
    case True
    obtain p d where step: "join_step uid id1 iid g pc1 db = (p, d)" by (cases "join_step uid id1 iid g pc1 db")
    from join_step_invariant [OF Cons.prems(1) Cons.prems(2) Cons.prems(3) Cons.prems(4) step]
    have inv: "join_ready uid iid g d" "call_ok uid iid g id1 p d" "call_ok uid iid g id2 pc2 d"
      by simp_all
    from Cons.prems(5) True step have "run_two uid id1 id2 iid g sched (p, pc2, d) = (pc1', pc2', db')"
      by simp
    from Cons.IH [OF inv(1) inv(2) inv(3) Cons.prems(4) this] show ?thesis .
  next
    case False
    obtain p d where step: "join_step uid id2 iid g pc2 db = (p, d)" by (cases "join_step uid id2 iid g pc2 db")
    from Cons.prems(4) have ne: "id2 \<noteq> id1" by simp
    from join_step_invariant [OF Cons.prems(1) Cons.prems(3) Cons.prems(2) ne step]
    have inv: "join_ready uid iid g d" "call_ok uid iid g id2 p d" "call_ok uid iid g id1 pc1 d"
      by simp_all
    from Cons.prems(5) False step have "run_two uid id1 id2 iid g sched (pc1, p, d) = (pc1', pc2', db')"
      by simp
    from Cons.IH [OF inv(1) inv(3) inv(2) Cons.prems(4) this] show ?thesis .
  qed
qed


lemma stage_step:
  "join_step uid nid iid g pc db = (pc', db') \<Longrightarrow> min 3 (Suc (stage pc)) \<le> stage pc'"
  by (cases pc) (auto simp: join_step_def split: sum.splits)

lemma stage_Returned: "3 \<le> stage pc \<Longrightarrow> \<exists>r. pc = Returned r"
  by (cases pc) simp_all

lemma run_two_progress:
  "run_two uid id1 id2 iid g sched (pc1, pc2, db) = (pc1', pc2', db') \<Longrightarrow>
     min 3 (stage pc1 + count_list sched True) \<le> stage pc1' \<and>
     min 3 (stage pc2 + count_list sched False) \<le> stage pc2'"
proof (induction sched arbitrary: pc1 pc2 db)
  case Nil
  then show ?case by simp
next
  case (Cons first sched)
  show ?case
  proof (cases first)
    case True
    obtain p d where step: "join_step uid id1 iid g pc1 db = (p, d)"
      by (cases "join_step uid id1 iid g pc1 db")
    with Cons.prems True have "run_two uid id1 id2 iid g sched (p, pc2, d) = (pc1', pc2', db')"
      by simp
    from Cons.IH [OF this] stage_step [OF step] True show ?thesis
      by (simp add: min_def split: if_splits)
  next
    case False
    obtain p d where step: "join_step uid id2 iid g pc2 db = (p, d)"
      by (cases "join_step uid id2 iid g pc2 db")
    with Cons.prems False have "run_two uid id1 id2 iid g sched (pc1, p, d) = (pc1', pc2', db')"
      by simp
    from Cons.IH [OF this] stage_step [OF step] False show ?thesis
      by (simp add: min_def split: if_splits)
  qed
qed

lemma joinGroup_result:
  assumes ready: "join_ready (u_id u) iid g db"
  shows "joinGroup (Some u) nid iid g db =
    (Inr (),
     (if existingMember db (u_id u) g = None \<and> nid \<notin> set (map m_id (db_group_members db)) \<and>
         membership_rows db g (u_id u) = []
      then db\<lparr>db_group_members := db_group_members db @ [joined_row nid g (u_id u)]\<rparr>
      else db)
     \<lparr>db_group_invitations := map (accept_row (u_id u) iid) (db_group_invitations db)\<rparr>)"
proof (cases "existingMember db (u_id u) g = None \<and>
    nid \<notin> set (map m_id (db_group_members db)) \<and> membership_rows db g (u_id u) = []")
  case True
  let ?db1 = "db\<lparr>db_group_members := db_group_members db @ [joined_row nid g (u_id u)]\<rparr>"
  from True have "join_ready (u_id u) iid g ?db1"
    by (simp add: join_ready_after_insert [OF ready])
  from join_update_result [OF this] True show ?thesis
    by (simp add: joinGroup_def join_insert_result [OF ready])
next
  case False
  with join_update_result [OF ready] show ?thesis
    by (auto simp: joinGroup_def join_insert_result [OF ready])
qed

text \<open>
  C3.  Let a user accept an invitation the update policy admits them for, in a database
  whose \<open>group_members\<close> table satisfies its unique constraint and holds the group and
  the user's profile.  The call succeeds, afterwards there is exactly one membership row
  for the group and the user, and the invitation is \<open>accepted\<close> with \<open>invited_user_id\<close> set
  to the user.  When the row was there before, the call adds none, and an insert that
  meets it (a lookup that answered before another call inserted) ends in the unique
  violation 23505, which is taken as success.  Two calls running at once, in any
  interleaving of their requests, both succeed and leave exactly one row and the
  invitation accepted; and every schedule that gives each call its three requests lets
  both return.
\<close>

theorem accept_is_idempotent:
  assumes ready: "join_ready (u_id u) invitationId groupId db"
    and fresh: "id1 \<notin> set (map m_id (db_group_members db))"
      "id2 \<notin> set (map m_id (db_group_members db))" "id1 \<noteq> id2"
  shows "fst (joinGroup (Some u) id1 invitationId groupId db) = Inr ()
    \<and> length (membership_rows (snd (joinGroup (Some u) id1 invitationId groupId db))
         groupId (u_id u)) = 1
    \<and> accepted_by (u_id u) invitationId (snd (joinGroup (Some u) id1 invitationId groupId db))
    \<and> (membership_rows db groupId (u_id u) \<noteq> [] \<longrightarrow>
         db_group_members (snd (joinGroup (Some u) id1 invitationId groupId db)) =
           db_group_members db
         \<and> join_insert (u_id u) id1 groupId None db = Inr db)
    \<and> (run_two (u_id u) id1 id2 invitationId groupId sched (AtLookup, AtLookup, db) =
          (Returned r1, Returned r2, db') \<longrightarrow>
        r1 = Inr () \<and> r2 = Inr () \<and> length (membership_rows db' groupId (u_id u)) = 1 \<and>
        accepted_by (u_id u) invitationId db')
    \<and> (3 \<le> count_list sched True \<and> 3 \<le> count_list sched False \<longrightarrow>
        (\<exists>r1 r2 db'. run_two (u_id u) id1 id2 invitationId groupId sched
            (AtLookup, AtLookup, db) = (Returned r1, Returned r2, db')))"
proof -
  let ?uid = "u_id u"
  let ?out = "joinGroup (Some u) id1 invitationId groupId db"
  have start: "call_ok ?uid invitationId groupId id1 AtLookup db"
    "call_ok ?uid invitationId groupId id2 AtLookup db"
    using fresh by (simp_all add: call_ok_def)
  have ok: "fst ?out = Inr ()"
    by (simp add: joinGroup_result [OF ready])
  have rows: "membership_rows (snd ?out) groupId ?uid \<noteq> []"
  proof (cases "existingMember db ?uid groupId")
    case None
    with fresh(1) show ?thesis
      by (simp add: joinGroup_result [OF ready] membership_rows_def joined_row_def)
  next
    case (Some m)
    then have "membership_rows db groupId ?uid \<noteq> []" by (rule existingMember_Some)
    with Some show ?thesis
      by (simp add: joinGroup_result [OF ready] membership_rows_def)
  qed
  have ready': "join_ready ?uid invitationId groupId (snd ?out)"
  proof (cases "existingMember db ?uid groupId = None \<and>
      id1 \<notin> set (map m_id (db_group_members db)) \<and> membership_rows db groupId ?uid = []")
    case True
    then have "join_ready ?uid invitationId groupId
        (db\<lparr>db_group_members := db_group_members db @ [joined_row id1 groupId ?uid]\<rparr>)"
      by (simp add: join_ready_after_insert [OF ready])
    from join_ready_after_update [OF this] True show ?thesis
      by (simp add: joinGroup_result [OF ready])
  next
    case False
    with join_ready_after_update [OF ready] show ?thesis
      by (auto simp: joinGroup_result [OF ready])
  qed
  have one: "length (membership_rows (snd ?out) groupId ?uid) = 1"
  proof -
    from ready' have "members_unique (snd ?out)" by (simp add: join_ready_def)
    from membership_rows_le_1 [OF this, of groupId ?uid] rows show ?thesis
      by (cases "membership_rows (snd ?out) groupId ?uid") simp_all
  qed
  have present: "invitationId \<in> set (map i_id (db_group_invitations db))"
    using ready by (simp add: join_ready_def)
  have acc: "accepted_by ?uid invitationId (snd ?out)"
    using present
    by (auto simp: joinGroup_result [OF ready] accepted_by_def list_all_iff o_def accept_row_def)
  have dup: "db_group_members (snd ?out) = db_group_members db \<and>
      join_insert ?uid id1 groupId None db = Inr db"
    if "membership_rows db groupId ?uid \<noteq> []"
    using that by (simp add: joinGroup_result [OF ready] join_insert_result [OF ready])
  have conc: "r1 = Inr () \<and> r2 = Inr () \<and> length (membership_rows db' groupId ?uid) = 1 \<and>
        accepted_by ?uid invitationId db'"
    if run: "run_two ?uid id1 id2 invitationId groupId sched (AtLookup, AtLookup, db) =
          (Returned r1, Returned r2, db')"
  proof -
    from run_two_invariant [OF ready start fresh(3) run]
    have fin: "join_ready ?uid invitationId groupId db'"
      "call_ok ?uid invitationId groupId id1 (Returned r1) db'"
      "call_ok ?uid invitationId groupId id2 (Returned r2) db'"
      by simp_all
    from fin(1) have "members_unique db'" by (simp add: join_ready_def)
    from membership_rows_le_1 [OF this, of groupId ?uid] fin(2)
    have "length (membership_rows db' groupId ?uid) = 1"
      by (cases "membership_rows db' groupId ?uid") (simp_all add: call_ok_def)
    with fin(2) fin(3) show ?thesis by (simp add: call_ok_def)
  qed
  have prog: "\<exists>r1 r2 db'. run_two ?uid id1 id2 invitationId groupId sched
            (AtLookup, AtLookup, db) = (Returned r1, Returned r2, db')"
    if "3 \<le> count_list sched True \<and> 3 \<le> count_list sched False"
  proof -
    obtain p1 p2 d where run: "run_two ?uid id1 id2 invitationId groupId sched
            (AtLookup, AtLookup, db) = (p1, p2, d)"
      by (cases "run_two ?uid id1 id2 invitationId groupId sched (AtLookup, AtLookup, db)")
    from run_two_progress [OF run] that have "3 \<le> stage p1" "3 \<le> stage p2" by simp_all
    then obtain r1 r2 where "p1 = Returned r1" "p2 = Returned r2"
      by (auto dest!: stage_Returned)
    with run show ?thesis by blast
  qed
  from ok one acc dup conc prog show ?thesis by blast
qed

lemma invited_db_ready: "join_ready xavier row3 household invited_db"
  by (simp add: join_ready_def invited_db_def household_db_def members_unique_def
      invitation_of_xavier_def plain_profile_def invitations_policy_def current_user_email_def
      account_def names)

theorem accept_is_idempotent_witness:
  "join_ready xavier row3 household invited_db
   \<and> row4 \<notin> set (map m_id (db_group_members invited_db))
   \<and> row5 \<notin> set (map m_id (db_group_members invited_db)) \<and> row4 \<noteq> row5
   \<and> fst (joinGroup (Some (session xavier ''xavier@example.com'')) row4 row3 household
        invited_db) = Inr ()
   \<and> length (membership_rows
        (snd (joinGroup (Some (session xavier ''xavier@example.com'')) row4 row3 household
           invited_db)) household xavier) = 1
   \<and> membership_rows invited_db household bob \<noteq> []
   \<and> join_ready bob row3 household
        (invited_db\<lparr>db_group_invitations := [(invitation_of_xavier None ''pending'')
           \<lparr>i_invited_email := ''bob@example.com''\<rparr>]\<rparr>)
   \<and> join_insert bob row4 household None
        (invited_db\<lparr>db_group_invitations := [(invitation_of_xavier None ''pending'')
           \<lparr>i_invited_email := ''bob@example.com''\<rparr>]\<rparr>) =
      Inr (invited_db\<lparr>db_group_invitations := [(invitation_of_xavier None ''pending'')
           \<lparr>i_invited_email := ''bob@example.com''\<rparr>]\<rparr>)
   \<and> (\<exists>r1 r2 db'. run_two xavier row4 row5 row3 household
          [True, False, False, True, False, True] (AtLookup, AtLookup, invited_db) =
          (Returned r1, Returned r2, db') \<and>
        r1 = Inr () \<and> r2 = Inr () \<and> length (membership_rows db' household xavier) = 1 \<and>
        accepted_by xavier row3 db')"
proof -
  let ?x = "session xavier ''xavier@example.com''"
  let ?bobs = "invited_db\<lparr>db_group_invitations := [(invitation_of_xavier None ''pending'')
           \<lparr>i_invited_email := ''bob@example.com''\<rparr>]\<rparr>"
  have ux: "u_id ?x = xavier" by (simp add: session_def)
  have ub: "u_id (session bob ''bob@example.com'') = bob" by (simp add: session_def)
  have fresh: "row4 \<notin> set (map m_id (db_group_members invited_db))"
    "row5 \<notin> set (map m_id (db_group_members invited_db))" "row4 \<noteq> row5"
    by (simp_all add: invited_db_def household_db_def names)
  have fresh_b: "row4 \<notin> set (map m_id (db_group_members ?bobs))"
    "row5 \<notin> set (map m_id (db_group_members ?bobs))"
    using fresh by simp_all
  have bob_in: "membership_rows invited_db household bob \<noteq> []"
    "membership_rows ?bobs household bob \<noteq> []"
    by (simp_all add: membership_rows_def invited_db_def household_db_def names)
  have ready_b: "join_ready bob row3 household ?bobs"
    by (simp add: join_ready_def invited_db_def household_db_def members_unique_def
      invitation_of_xavier_def plain_profile_def invitations_policy_def current_user_email_def
      account_def names)
  have counts: "3 \<le> count_list [True, False, False, True, False, True] True \<and>
      3 \<le> count_list [True, False, False, True, False, True] False"
    by simp
  note x = accept_is_idempotent [of ?x row3 household invited_db row4 row5
      "[True, False, False, True, False, True]", unfolded ux, OF invited_db_ready fresh]
  note b = accept_is_idempotent [of "session bob ''bob@example.com''" row3 household ?bobs row4 row5,
      unfolded ub, OF ready_b fresh_b fresh(3)]
  from x counts obtain r1 r2 db' where run: "run_two xavier row4 row5 row3 household
          [True, False, False, True, False, True] (AtLookup, AtLookup, invited_db) =
          (Returned r1, Returned r2, db')"
    by blast
  with x [of r1 r2 db'] have "r1 = Inr () \<and> r2 = Inr () \<and>
      length (membership_rows db' household xavier) = 1 \<and> accepted_by xavier row3 db'"
    by blast
  with run have conc: "\<exists>r1 r2 db'. run_two xavier row4 row5 row3 household
          [True, False, False, True, False, True] (AtLookup, AtLookup, invited_db) =
          (Returned r1, Returned r2, db') \<and>
        r1 = Inr () \<and> r2 = Inr () \<and> length (membership_rows db' household xavier) = 1 \<and>
        accepted_by xavier row3 db'"
    by blast
  from x have seq: "fst (joinGroup (Some ?x) row4 row3 household invited_db) = Inr ()"
    "length (membership_rows (snd (joinGroup (Some ?x) row4 row3 household invited_db))
        household xavier) = 1"
    by blast+
  from b bob_in(2) have conflict: "join_insert bob row4 household None ?bobs = Inr ?bobs"
    by blast
  from invited_db_ready fresh seq bob_in(1) ready_b conflict conc show ?thesis
    by blast
qed

subsection \<open>Creating a group\<close>

text \<open>
  C9, as the code has it.  When the group row has been inserted and the insert of the
  creator's membership row fails, \<open>createGroup\<close> returns the error and the database keeps
  the group row without any membership row for it: nothing deletes the group and nothing
  retries.  The creator still counts as admin of the group and can still read it, both
  through \<open>created_by\<close>.
\<close>

theorem createGroup_leaves_group_behind:
  assumes fresh: "gid \<notin> set (map g_id (db_groups db))"
    and fk: "members_reference_groups db"
    and failed: "insert_group_member (u_id u)
        \<lparr> m_id = mid, m_group_id = gid, m_user_id = u_id u, m_role = ''admin'' \<rparr>
        (db\<lparr>db_groups := db_groups db @ [new_group gid nm description (u_id u)]\<rparr>) = Inl e"
  shows "createGroup (Some u) gid mid nm description db =
      (Inl (PgError e), db\<lparr>db_groups := db_groups db @ [new_group gid nm description (u_id u)]\<rparr>)
    \<and> filter (\<lambda>m. m_group_id m = gid)
        (db_group_members (snd (createGroup (Some u) gid mid nm description db))) = []
    \<and> is_group_admin (snd (createGroup (Some u) gid mid nm description db)) gid (u_id u)
    \<and> groups_select_policy (snd (createGroup (Some u) gid mid nm description db)) (u_id u)
        (new_group gid nm description (u_id u))"
proof -
  let ?db1 = "db\<lparr>db_groups := db_groups db @ [new_group gid nm description (u_id u)]\<rparr>"
  have ins: "insert_group (u_id u) (new_group gid nm description (u_id u)) db = Inr ?db1"
    using fresh by (simp add: insert_group_def groups_insert_policy_def new_group_def)
  have run: "createGroup (Some u) gid mid nm description db = (Inl (PgError e), ?db1)"
    using ins failed by (simp add: createGroup_def new_group_def Let_def)
  have none: "filter (\<lambda>m. m_group_id m = gid) (db_group_members ?db1) = []"
    using fresh fk by (auto simp: members_reference_groups_def list_all_iff filter_empty_conv)
  have admin: "is_group_admin ?db1 gid (u_id u)"
    by (simp add: is_group_admin_def new_group_def)
  have reads: "groups_select_policy ?db1 (u_id u) (new_group gid nm description (u_id u))"
    by (simp add: groups_select_policy_def new_group_def)
  from run none admin reads show ?thesis by simp
qed

theorem createGroup_leaves_group_behind_witness:
  "row4 \<notin> set (map g_id (db_groups household_db))
   \<and> members_reference_groups household_db
   \<and> insert_group_member xavier
        \<lparr> m_id = row5, m_group_id = row4, m_user_id = xavier, m_role = ''admin'' \<rparr>
        (household_db\<lparr>db_groups := db_groups household_db @ [new_group row4 ''Trip'' None xavier]\<rparr>)
      = Inl foreign_key_violation
   \<and> createGroup (Some (session xavier ''xavier@example.com'')) row4 row5 ''Trip'' None
        household_db =
      (Inl (PgError foreign_key_violation),
       household_db\<lparr>db_groups := db_groups household_db @ [new_group row4 ''Trip'' None xavier]\<rparr>)
   \<and> is_group_admin (snd (createGroup (Some (session xavier ''xavier@example.com'')) row4 row5
        ''Trip'' None household_db)) row4 xavier"
proof -
  let ?x = "session xavier ''xavier@example.com''"
  have ux: "u_id ?x = xavier" by (simp add: session_def)
  have fresh: "row4 \<notin> set (map g_id (db_groups household_db))"
    by (simp add: household_db_def names)
  have fk: "members_reference_groups household_db"
    by (simp add: members_reference_groups_def household_db_def)
  have failed: "insert_group_member xavier
        \<lparr> m_id = row5, m_group_id = row4, m_user_id = xavier, m_role = ''admin'' \<rparr>
        (household_db\<lparr>db_groups := db_groups household_db @ [new_group row4 ''Trip'' None xavier]\<rparr>)
      = Inl foreign_key_violation"
    by (simp add: insert_group_member_def members_insert_policy_def household_db_def
        plain_profile_def new_group_def)
       (simp add: names)
  note inst = createGroup_leaves_group_behind [of row4 household_db ?x row5 "''Trip''" None
      foreign_key_violation, unfolded ux, OF fresh fk failed]
  from inst fresh fk failed show ?thesis by blast
qed

theorem createGroup_without_admin_member:
  "fst (createGroup (Some (session xavier ''xavier@example.com'')) row4 row5 ''Trip'' None
        household_db) = Inl (PgError foreign_key_violation)
   \<and> map g_id (db_groups (snd (createGroup (Some (session xavier ''xavier@example.com'')) row4
        row5 ''Trip'' None household_db))) = [household, row4]
   \<and> filter (\<lambda>m. m_group_id m = row4)
        (db_group_members (snd (createGroup (Some (session xavier ''xavier@example.com'')) row4
           row5 ''Trip'' None household_db))) = []"
  by (simp add: createGroup_def insert_group_def groups_insert_policy_def session_def
      insert_group_member_def members_insert_policy_def household_db_def plain_profile_def Let_def)
     (simp add: names)

subsection \<open>Inviting again\<close>


lemma filter_unique_key:
  assumes "distinct (map f xs)" "e \<in> set xs" "P e" "\<And>x. x \<in> set xs \<Longrightarrow> P x \<Longrightarrow> f x = f e"
  shows "filter P xs = [e]"
  using assms
proof (induction xs)
  case Nil
  then show ?case by simp
next
  case (Cons a xs)
  show ?case
  proof (cases "a = e")
    case True
    have "filter P xs = []"
    proof (rule ccontr)
      assume "filter P xs \<noteq> []"
      then obtain x where x: "x \<in> set xs" "P x" by (auto simp: filter_empty_conv)
      with Cons.prems(4) [of x] have "f x = f e" by simp
      with x(1) True Cons.prems(1) show False by (auto simp: image_iff)
    qed
    with True Cons.prems(3) show ?thesis by simp
  next
    case False
    with Cons.prems have e: "e \<in> set xs" by simp
    have "\<not> P a"
    proof
      assume "P a"
      with Cons.prems(4) [of a] have "f a = f e" by simp
      with e Cons.prems(1) show False by (auto simp: image_iff)
    qed
    moreover have "filter P xs = [e]"
    proof (rule Cons.IH)
      from Cons.prems(1) show "distinct (map f xs)" by simp
      show "e \<in> set xs" by (rule e)
      show "P e" by (rule Cons.prems(3))
      show "f x = f e" if "x \<in> set xs" "P x" for x
        using that Cons.prems(4) [of x] by simp
    qed
    ultimately show ?thesis by simp
  qed
qed

lemma existingInvitation_found:
  assumes wf: "invitations_wellformed db"
    and e: "e \<in> set (db_group_invitations db)" "i_group_id e = groupId" "i_invited_email e = email"
    and readable: "invitations_policy db uid e"
  shows "existingInvitation db uid groupId email = Some e"
proof -
  from wf have "distinct (map (\<lambda>i. (i_group_id i, i_invited_email i)) (db_group_invitations db))"
    by (simp add: invitations_wellformed_def)
  from filter_unique_key [OF this e(1), of "\<lambda>i. invitations_policy db uid i \<and>
      i_group_id i = groupId \<and> i_invited_email i = email"] e readable
  have "filter (\<lambda>i. invitations_policy db uid i \<and> i_group_id i = groupId \<and>
      i_invited_email i = email) (db_group_invitations db) = [e]"
    by simp
  then show ?thesis by (simp add: existingInvitation_def single_data_def)
qed

lemma reset_update_result:
  assumes wf: "invitations_wellformed db"
    and e: "e \<in> set (db_group_invitations db)"
    and readable: "invitations_policy db uid e"
    and profile: "uid \<in> set (map p_user_id (db_profiles db))"
  shows "update_invitation uid (i_id e) (\<lambda>i. i\<lparr>i_status := ''pending'', i_invited_by := uid\<rparr>) db =
     Inr (db\<lparr>db_group_invitations := map (reset_row uid (i_id e)) (db_group_invitations db)\<rparr>)"
proof -
  let ?f = "\<lambda>i. i\<lparr>i_status := ''pending'', i_invited_by := uid\<rparr>"
  let ?touched = "\<lambda>i. i_id i = i_id e \<and> invitations_policy db uid i"
  from wf have ids: "distinct (map i_id (db_group_invitations db))"
    by (simp add: invitations_wellformed_def)
  have only: "j = e" if "j \<in> set (db_group_invitations db)" "i_id j = i_id e" for j
  proof -
    from ids have "inj_on i_id (set (db_group_invitations db))" by (simp add: distinct_map)
    with that e show ?thesis by (simp add: inj_on_def)
  qed
  have new_ok: "invitations_policy db uid (?f i)" for i
    by (simp add: invitations_policy_def)
  have same: "map (\<lambda>i. if ?touched i then ?f i else i) (db_group_invitations db) =
      map (reset_row uid (i_id e)) (db_group_invitations db)"
    by (rule map_cong) (auto simp: reset_row_def readable dest: only)
  show ?thesis
    unfolding update_invitation_def Let_def
    using profile by (simp add: list_all_iff new_ok same)
qed

lemma inviteToGroup_existing:
  assumes wf: "invitations_wellformed db"
    and e: "e \<in> set (db_group_invitations db)" "i_group_id e = groupId" "i_invited_email e = email"
    and readable: "invitations_policy db (u_id u) e"
    and profile: "u_id u \<in> set (map p_user_id (db_profiles db))"
  shows "inviteToGroup (Some u) new_id groupId email db =
     (if i_status e = ''pending'' then (Inl InvitationAlreadyExists, db)
      else (Inr (), db\<lparr>db_group_invitations :=
                        map (reset_row (u_id u) (i_id e)) (db_group_invitations db)\<rparr>))"
  by (simp add: inviteToGroup_def existingInvitation_found [OF wf e readable]
      reset_update_result [OF wf e(1) readable profile])

lemma i_id_reset_row [simp]: "i_id (reset_row uid iid i) = i_id i"
  by (simp add: reset_row_def)

text \<open>
  C8, as the code has it.  Let the requester be able to read the prior invitation for the
  group and the address (they sent it, or it is addressed to them), and have a profile.
  When the prior invitation is \<open>pending\<close> the call is rejected as a duplicate and changes
  nothing.  When it is \<open>declined\<close> the call succeeds: the table keeps its rows and their
  ids, and the prior row is now \<open>pending\<close> with \<open>invited_by\<close> the requester.
\<close>

theorem reinvite_readable_prior:
  assumes wf: "invitations_wellformed db"
    and e: "e \<in> set (db_group_invitations db)" "i_group_id e = groupId" "i_invited_email e = email"
    and readable: "invitations_policy db (u_id u) e"
    and profile: "u_id u \<in> set (map p_user_id (db_profiles db))"
  shows "(i_status e = ''pending'' \<longrightarrow>
            inviteToGroup (Some u) new_id groupId email db = (Inl InvitationAlreadyExists, db))
    \<and> (i_status e = ''declined'' \<longrightarrow>
          fst (inviteToGroup (Some u) new_id groupId email db) = Inr () \<and>
          map i_id (db_group_invitations (snd (inviteToGroup (Some u) new_id groupId email db))) =
            map i_id (db_group_invitations db) \<and>
          e\<lparr>i_status := ''pending'', i_invited_by := u_id u\<rparr> \<in>
            set (db_group_invitations (snd (inviteToGroup (Some u) new_id groupId email db))) \<and>
          db_group_invitations (snd (inviteToGroup (Some u) new_id groupId email db)) =
            map (reset_row (u_id u) (i_id e)) (db_group_invitations db))"
proof -
  note r = inviteToGroup_existing [OF wf e readable profile, of new_id]
  have "e\<lparr>i_status := ''pending'', i_invited_by := u_id u\<rparr> \<in>
      set (map (reset_row (u_id u) (i_id e)) (db_group_invitations db))"
  proof -
    have "reset_row (u_id u) (i_id e) e = e\<lparr>i_status := ''pending'', i_invited_by := u_id u\<rparr>"
      by (simp add: reset_row_def)
    with e(1) show ?thesis by (metis imageI set_map)
  qed
  with r show ?thesis by (simp add: o_def)
qed


lemma declined_db_wellformed: "invitations_wellformed declined_db"
  by (simp add: invitations_wellformed_def declined_db_def)

lemma invited_db_wellformed: "invitations_wellformed invited_db"
  by (simp add: invitations_wellformed_def invited_db_def)

lemma accepted_db_wellformed: "invitations_wellformed accepted_db"
  by (simp add: invitations_wellformed_def accepted_db_def)

lemma alice_reads_own_invitation:
  "invitations_policy db alice (invitation_of_xavier invited status)"
  by (simp add: invitations_policy_def invitation_of_xavier_def)

lemma bob_cannot_read:
  "db_auth_users db = db_auth_users household_db \<Longrightarrow> invited \<noteq> Some bob \<Longrightarrow>
     \<not> invitations_policy db bob (invitation_of_xavier invited status)"
  by (simp add: invitations_policy_def invitation_of_xavier_def current_user_email_def
      household_db_def account_def)
     (simp add: names)

theorem reinvite_readable_prior_witness:
  "invitations_wellformed declined_db
   \<and> invitation_of_xavier None ''declined'' \<in> set (db_group_invitations declined_db)
   \<and> invitations_policy declined_db alice (invitation_of_xavier None ''declined'')
   \<and> alice \<in> set (map p_user_id (db_profiles declined_db))
   \<and> fst (inviteToGroup (Some (session alice ''alice@example.com'')) row5 household
        ''xavier@example.com'' declined_db) = Inr ()
   \<and> db_group_invitations (snd (inviteToGroup (Some (session alice ''alice@example.com'')) row5
        household ''xavier@example.com'' declined_db)) = [invitation_of_xavier None ''pending'']
   \<and> inviteToGroup (Some (session alice ''alice@example.com'')) row5 household
        ''xavier@example.com'' invited_db = (Inl InvitationAlreadyExists, invited_db)"
proof -
  let ?a = "session alice ''alice@example.com''"
  have ua: "u_id ?a = alice" by (simp add: session_def)
  have in_d: "invitation_of_xavier None ''declined'' \<in> set (db_group_invitations declined_db)"
    by (simp add: declined_db_def)
  have in_p: "invitation_of_xavier None ''pending'' \<in> set (db_group_invitations invited_db)"
    by (simp add: invited_db_def)
  have prof: "alice \<in> set (map p_user_id (db_profiles declined_db))"
    "alice \<in> set (map p_user_id (db_profiles invited_db))"
    by (simp_all add: declined_db_def invited_db_def plain_profile_def)
  have fields: "i_group_id (invitation_of_xavier None st) = household"
    "i_invited_email (invitation_of_xavier None st) = ''xavier@example.com''"
    "i_status (invitation_of_xavier None st) = st" for st
    by (simp_all add: invitation_of_xavier_def)
  note d = reinvite_readable_prior [of declined_db "invitation_of_xavier None ''declined''"
      household "''xavier@example.com''" ?a row5, unfolded ua,
      OF declined_db_wellformed in_d fields(1) fields(2) alice_reads_own_invitation prof(1)]
  note p = reinvite_readable_prior [of invited_db "invitation_of_xavier None ''pending''"
      household "''xavier@example.com''" ?a row5, unfolded ua,
      OF invited_db_wellformed in_p fields(1) fields(2) alice_reads_own_invitation prof(2)]
  have reset: "map (reset_row alice (i_id (invitation_of_xavier None ''declined'')))
      (db_group_invitations declined_db) = [invitation_of_xavier None ''pending'']"
    by (simp add: declined_db_def reset_row_def invitation_of_xavier_def)
  from d p fields reset declined_db_wellformed in_d prof(1)
    alice_reads_own_invitation [of declined_db None "''declined''"]
  show ?thesis by simp
qed

theorem reinvite_by_other_member_fails:
  "inviteToGroup (Some (session bob ''bob@example.com'')) row5 household ''xavier@example.com''
     declined_db = (Inl (PgError unique_violation), declined_db)
   \<and> db_group_invitations declined_db = [invitation_of_xavier None ''declined'']
   \<and> is_group_member declined_db household bob"
proof -
  have au: "db_auth_users declined_db = db_auth_users household_db"
    by (simp add: declined_db_def invited_db_def)
  have invs: "db_group_invitations declined_db = [invitation_of_xavier None ''declined'']"
    by (simp add: declined_db_def)
  have none: "existingInvitation declined_db bob household ''xavier@example.com'' = None"
    by (simp add: existingInvitation_def invs bob_cannot_read [OF au] single_data_def)
  have member: "is_group_member declined_db household bob"
    by (simp add: is_group_member_def declined_db_def invited_db_def household_db_def names)
  have "insert_invitation bob
      \<lparr> i_id = row5, i_group_id = household, i_invited_by = bob,
        i_invited_email = ''xavier@example.com'', i_invited_user_id = None,
        i_status = ''pending'' \<rparr> declined_db = Inl unique_violation"
    by (simp add: insert_invitation_def invitations_insert_policy_def member invs
        invitation_of_xavier_def)
  with none invs member show ?thesis
    by (simp add: inviteToGroup_def session_def)
qed

text \<open>
  C10, as the code has it.  Under the same conditions every prior status other than
  \<open>pending\<close>, \<open>accepted\<close> among them, takes the second branch: the prior row is reset to
  \<open>pending\<close> with \<open>invited_by\<close> the requester, no row is added, and \<open>group_members\<close> is
  left as it was.
\<close>

theorem reinvite_any_non_pending:
  assumes wf: "invitations_wellformed db"
    and e: "e \<in> set (db_group_invitations db)" "i_group_id e = groupId" "i_invited_email e = email"
    and readable: "invitations_policy db (u_id u) e"
    and profile: "u_id u \<in> set (map p_user_id (db_profiles db))"
    and status: "i_status e \<noteq> ''pending''"
  shows "fst (inviteToGroup (Some u) new_id groupId email db) = Inr ()
    \<and> db_group_invitations (snd (inviteToGroup (Some u) new_id groupId email db)) =
        map (reset_row (u_id u) (i_id e)) (db_group_invitations db)
    \<and> map i_id (db_group_invitations (snd (inviteToGroup (Some u) new_id groupId email db))) =
        map i_id (db_group_invitations db)
    \<and> e\<lparr>i_status := ''pending'', i_invited_by := u_id u\<rparr> \<in>
        set (db_group_invitations (snd (inviteToGroup (Some u) new_id groupId email db)))
    \<and> db_group_members (snd (inviteToGroup (Some u) new_id groupId email db)) =
        db_group_members db"
proof -
  note r = inviteToGroup_existing [OF wf e readable profile, of new_id]
  have "e\<lparr>i_status := ''pending'', i_invited_by := u_id u\<rparr> \<in>
      set (map (reset_row (u_id u) (i_id e)) (db_group_invitations db))"
  proof -
    have "reset_row (u_id u) (i_id e) e = e\<lparr>i_status := ''pending'', i_invited_by := u_id u\<rparr>"
      by (simp add: reset_row_def)
    with e(1) show ?thesis by (metis imageI set_map)
  qed
  with r status show ?thesis by (simp add: o_def)
qed

theorem reinvite_any_non_pending_witness:
  "invitations_wellformed accepted_db
   \<and> invitation_of_xavier (Some xavier) ''accepted'' \<in> set (db_group_invitations accepted_db)
   \<and> invitations_policy accepted_db alice (invitation_of_xavier (Some xavier) ''accepted'')
   \<and> alice \<in> set (map p_user_id (db_profiles accepted_db))
   \<and> i_status (invitation_of_xavier (Some xavier) ''accepted'') \<noteq> ''pending''
   \<and> is_group_member accepted_db household xavier
   \<and> fst (inviteToGroup (Some (session alice ''alice@example.com'')) row5 household
        ''xavier@example.com'' accepted_db) = Inr ()
   \<and> db_group_invitations (snd (inviteToGroup (Some (session alice ''alice@example.com'')) row5
        household ''xavier@example.com'' accepted_db)) =
      [invitation_of_xavier (Some xavier) ''pending'']
   \<and> db_group_members (snd (inviteToGroup (Some (session alice ''alice@example.com'')) row5
        household ''xavier@example.com'' accepted_db)) = db_group_members accepted_db"
proof -
  let ?a = "session alice ''alice@example.com''"
  let ?e = "invitation_of_xavier (Some xavier) ''accepted''"
  have ua: "u_id ?a = alice" by (simp add: session_def)
  have in_a: "?e \<in> set (db_group_invitations accepted_db)"
    by (simp add: accepted_db_def)
  have prof: "alice \<in> set (map p_user_id (db_profiles accepted_db))"
    by (simp add: accepted_db_def invited_db_def plain_profile_def)
  have fields: "i_group_id ?e = household" "i_invited_email ?e = ''xavier@example.com''"
    "i_status ?e \<noteq> ''pending''"
    by (simp_all add: invitation_of_xavier_def)
  have member: "is_group_member accepted_db household xavier"
    by (simp add: is_group_member_def accepted_db_def joined_row_def)
  note a = reinvite_any_non_pending [of accepted_db ?e household "''xavier@example.com''" ?a row5,
      unfolded ua, OF accepted_db_wellformed in_a fields(1) fields(2)
      alice_reads_own_invitation prof fields(3)]
  have reset: "map (reset_row alice (i_id ?e)) (db_group_invitations accepted_db) =
      [invitation_of_xavier (Some xavier) ''pending'']"
    by (simp add: accepted_db_def reset_row_def invitation_of_xavier_def)
  from a reset accepted_db_wellformed in_a prof fields(3) member
    alice_reads_own_invitation [of accepted_db "Some xavier" "''accepted''"]
  show ?thesis by simp
qed

theorem reinvite_accepted_by_other_member_fails:
  "inviteToGroup (Some (session bob ''bob@example.com'')) row5 household ''xavier@example.com''
     accepted_db = (Inl (PgError unique_violation), accepted_db)
   \<and> db_group_invitations accepted_db = [invitation_of_xavier (Some xavier) ''accepted'']
   \<and> is_group_member accepted_db household bob"
proof -
  have au: "db_auth_users accepted_db = db_auth_users household_db"
    by (simp add: accepted_db_def invited_db_def)
  have invs: "db_group_invitations accepted_db = [invitation_of_xavier (Some xavier) ''accepted'']"
    by (simp add: accepted_db_def)
  have "Some xavier \<noteq> Some bob" by (simp add: names)
  from bob_cannot_read [OF au this]
  have none: "existingInvitation accepted_db bob household ''xavier@example.com'' = None"
    by (simp add: existingInvitation_def invs single_data_def)
  have member: "is_group_member accepted_db household bob"
    by (simp add: is_group_member_def accepted_db_def invited_db_def household_db_def names)
  have "insert_invitation bob
      \<lparr> i_id = row5, i_group_id = household, i_invited_by = bob,
        i_invited_email = ''xavier@example.com'', i_invited_user_id = None,
        i_status = ''pending'' \<rparr> accepted_db = Inl unique_violation"
    by (simp add: insert_invitation_def invitations_insert_policy_def member invs
        invitation_of_xavier_def)
  with none invs member show ?thesis
    by (simp add: inviteToGroup_def session_def)
qed

subsection \<open>Setting a limit\<close>






















lemma transform_fields [simp]:
  "gb_id (transform_group_budget r c) = gbr_id r"
  "gb_period (transform_group_budget r c) = gbr_period r"
  "gb_category_name (transform_group_budget r c) = or_default (map_option c_name c) ''Unknown''"
  by (simp_all add: transform_group_budget_def)

lemma is_group_member_budgets_update [simp]:
  "is_group_member (db\<lparr>db_group_budgets := rows\<rparr>) g uid = is_group_member db g uid"
  by (simp add: is_group_member_def)

lemma joined_category_budgets_update [simp]:
  "joined_category (db\<lparr>db_group_budgets := rows\<rparr>) r = joined_category db r"
  by (cases "gbr_category_id r") (simp_all add: joined_category_def)

lemma joined_category_amount [simp]:
  "joined_category db (r\<lparr>gbr_amount := amount\<rparr>) = joined_category db r"
  by (simp add: joined_category_def)







lemmas calendar_eval = toISODate_def format_local_def formatDateStringIST_def
  getCurrentDateIST_def getFullYear_def local_midnight_dec31_def days_from_civil_def
  civil_from_days_def day_number_def ms_per_day_def ms_per_minute_def ist_offset_def
  year_from.simps month_from.simps days_in_year_def days_in_month_def leap_year_def
  format_ymd_def digit_def












lemma utc_evening_dates:
  "format_local utc_evening (env_now utc_evening) = ''2025-06-01''"
  "format_local utc_evening (env_now utc_evening + ms_per_day) = ''2025-06-02''"
  "toISODate (env_now utc_evening) = ''2025-06-01''"
  "getFullYear utc_evening (env_now utc_evening) = 2025"
  by (simp_all add: utc_evening_def calendar_eval)




text \<open>
  C6, evaluated where it fails.  At 20:00 UTC on 1 June 2025 it is 2 June in India.  The
  group component takes \<open>format(new Date(), 'yyyy-MM-dd')\<close>: a client in UTC or in New
  York gets 1 June, a client in India 2 June, so the same limits and transactions give
  different spends at the same instant; the personal component goes through
  \<open>getCurrentDateIST\<close> and gets 2 June on the client in UTC.
\<close>

theorem group_today_is_client_local:
  "group_todayStr utc_evening = ''2025-06-01''
   \<and> group_todayStr new_york_afternoon = ''2025-06-01''
   \<and> group_todayStr (utc_evening\<lparr>env_offset := 330\<rparr>) = ''2025-06-02''
   \<and> formatDateStringIST (env_now utc_evening) = ''2025-06-02''
   \<and> personal_todayStr utc_evening = ''2025-06-02''
   \<and> map pr_spent (GroupBudgetOverview_budgetProgressData (utc_evening\<lparr>env_offset := 330\<rparr>)
        [food_budget] food_transactions) = [0]
   \<and> map pr_spent (GroupBudgetOverview_budgetProgressData utc_evening
        [food_budget] food_transactions) = [550]"
proof -
  have days: "group_todayStr utc_evening = ''2025-06-01''"
    "group_todayStr new_york_afternoon = ''2025-06-01''"
    "group_todayStr (utc_evening\<lparr>env_offset := 330\<rparr>) = ''2025-06-02''"
    "formatDateStringIST (env_now utc_evening) = ''2025-06-02''"
    "personal_todayStr utc_evening = ''2025-06-02''"
    by (simp_all add: group_todayStr_def personal_todayStr_def utc_evening_def
        new_york_afternoon_def calendar_eval)
  have active2: "group_active ''2025-06-02'' food_budget"
    by (simp add: group_active_def food_budget_def transform_group_budget_def)
  have none2: "filter (group_matches ''2025-06-02'' food_budget) food_transactions = []"
    by (simp add: group_matches_def food_transactions_def food_expense_def normalizeDateStr_def)
  have india: "map pr_spent (GroupBudgetOverview_budgetProgressData
      (utc_evening\<lparr>env_offset := 330\<rparr>) [food_budget] food_transactions) = [0]"
    by (simp add: GroupBudgetOverview_budgetProgressData_def days group_budgetProgressData_def
        active2 none2 sum_amounts_def)
  have utc: "map pr_spent (GroupBudgetOverview_budgetProgressData utc_evening
      [food_budget] food_transactions) = [550]"
    by (simp add: GroupBudgetOverview_budgetProgressData_def days group_budgetProgressData_def
        food_budget_active food_spend)
  from days india utc show ?thesis by simp
qed

subsection \<open>The example states come from the client's own calls\<close>

text \<open>One call of \<open>joinGroup\<close> is its three requests in a row.\<close>

lemma joinGroup_as_steps:
  "run_two (u_id u) id1 id2 iid g [True, True, True] (AtLookup, pc2, db) =
     (Returned (fst (joinGroup (Some u) id1 iid g db)), pc2, snd (joinGroup (Some u) id1 iid g db))"
proof (cases "join_insert (u_id u) id1 g (existingMember db (u_id u) g) db")
  case (Inl e)
  then show ?thesis by (simp add: join_step_def joinGroup_def)
next
  case (Inr db1)
  then show ?thesis
    by (cases "join_update (u_id u) iid db1") (simp_all add: join_step_def joinGroup_def)
qed

lemma invited_db_parts:
  "db_group_invitations invited_db = [invitation_of_xavier None ''pending'']"
  "db_group_members invited_db = db_group_members household_db"
  "db_auth_users invited_db = db_auth_users household_db"
  "db_groups invited_db = db_groups household_db"
  "db_profiles invited_db = [plain_profile alice, plain_profile bob, plain_profile xavier]"
  by (simp_all add: invited_db_def)

lemma xavier_reads_invitation:
  "db_auth_users db = db_auth_users household_db \<Longrightarrow>
     invitations_policy db xavier (invitation_of_xavier invited status)"
  by (simp add: invitations_policy_def invitation_of_xavier_def current_user_email_def
      household_db_def account_def names)

lemma invited_db_reachable:
  "inviteToGroup (Some (session alice ''alice@example.com'')) row3 household
     ''xavier@example.com'' (invited_db\<lparr>db_group_invitations := []\<rparr>) = (Inr (), invited_db)"
proof -
  have member: "is_group_member (invited_db\<lparr>db_group_invitations := []\<rparr>) household alice"
    by (simp add: is_group_member_def invited_db_parts household_db_def)
  have fk: "household \<in> set (map g_id (db_groups (invited_db\<lparr>db_group_invitations := []\<rparr>)))"
    "alice \<in> set (map p_user_id (db_profiles (invited_db\<lparr>db_group_invitations := []\<rparr>)))"
    by (simp_all add: invited_db_parts household_db_def plain_profile_def)
  have "invited_db\<lparr>db_group_invitations := [invitation_of_xavier None ''pending'']\<rparr> = invited_db"
    by (simp add: invited_db_def)
  with member fk show ?thesis
    by (simp add: inviteToGroup_def existingInvitation_def single_data_def session_def
        insert_invitation_def invitations_insert_policy_def invitation_of_xavier_def)
qed

lemma declined_db_reachable:
  "declineInvitation xavier row3 invited_db = (Inr (), declined_db)"
proof -
  have id3: "i_id (invitation_of_xavier invited status) = row3" for invited status
    by (simp add: invitation_of_xavier_def)
  have upd: "(invitation_of_xavier None ''pending'')\<lparr>i_status := ''declined''\<rparr> =
      invitation_of_xavier None ''declined''"
    by (simp add: invitation_of_xavier_def)
  show ?thesis
    by (simp add: declineInvitation_def update_invitation_def Let_def invited_db_parts id3 upd
        xavier_reads_invitation declined_db_def)
qed

lemma accepted_db_reachable:
  "joinGroup (Some (session xavier ''xavier@example.com'')) row4 row3 household invited_db =
     (Inr (), accepted_db)"
proof -
  have ux: "u_id (session xavier ''xavier@example.com'') = xavier" by (simp add: session_def)
  have none: "existingMember invited_db xavier household = None"
    by (simp add: existingMember_def invited_db_parts household_db_def single_data_def names)
  have fresh: "row4 \<notin> set (map m_id (db_group_members invited_db))"
    by (simp add: invited_db_parts household_db_def names)
  have rows: "membership_rows invited_db household xavier = []"
    by (simp add: membership_rows_def invited_db_parts household_db_def names)
  have acc: "map (accept_row xavier row3) (db_group_invitations invited_db) =
      [invitation_of_xavier (Some xavier) ''accepted'']"
    by (simp add: invited_db_parts accept_row_def invitation_of_xavier_def)
  from joinGroup_result [of "session xavier ''xavier@example.com''" row3 household invited_db row4,
      unfolded ux, OF invited_db_ready] none fresh rows acc
  show ?thesis by (simp add: accepted_db_def)
qed

text \<open>
  An invitation whose \<open>invited_user_id\<close> names someone else is still readable through the
  invited address: here the inviter herself has called \<open>joinGroup\<close> for it.
\<close>

theorem email_invitation_stays_readable:
  "joinGroup (Some (session alice ''alice@example.com'')) row4 row3 household invited_db =
     (Inr (), invited_db\<lparr>db_group_invitations := [invitation_of_xavier (Some alice) ''accepted'']\<rparr>)
   \<and> invitations_policy
        (invited_db\<lparr>db_group_invitations := [invitation_of_xavier (Some alice) ''accepted'']\<rparr>)
        xavier (invitation_of_xavier (Some alice) ''accepted'')
   \<and> \<not> (i_invited_user_id (invitation_of_xavier (Some alice) ''accepted'') = Some xavier \<or>
         i_invited_by (invitation_of_xavier (Some alice) ''accepted'') = xavier \<or>
         (i_invited_user_id (invitation_of_xavier (Some alice) ''accepted'') = None \<and>
          current_user_email
            (invited_db\<lparr>db_group_invitations := [invitation_of_xavier (Some alice) ''accepted'']\<rparr>)
            xavier = Some (i_invited_email (invitation_of_xavier (Some alice) ''accepted''))))"
proof -
  let ?a = "session alice ''alice@example.com''"
  let ?db' = "invited_db\<lparr>db_group_invitations := [invitation_of_xavier (Some alice) ''accepted'']\<rparr>"
  have ua: "u_id ?a = alice" by (simp add: session_def)
  have ready: "join_ready alice row3 household invited_db"
    by (simp add: join_ready_def invited_db_parts household_db_def members_unique_def
        invitation_of_xavier_def plain_profile_def invitations_policy_def names)
  have rows: "membership_rows invited_db household alice \<noteq> []"
    by (simp add: membership_rows_def invited_db_parts household_db_def)
  have acc: "map (accept_row alice row3) (db_group_invitations invited_db) =
      [invitation_of_xavier (Some alice) ''accepted'']"
    by (simp add: invited_db_parts accept_row_def invitation_of_xavier_def)
  from joinGroup_result [of ?a row3 household invited_db row4, unfolded ua, OF ready] rows acc
  have run: "joinGroup (Some ?a) row4 row3 household invited_db = (Inr (), ?db')"
    by simp
  have reads: "invitations_policy ?db' xavier (invitation_of_xavier (Some alice) ''accepted'')"
    by (rule xavier_reads_invitation) (simp add: invited_db_parts)
  have not_claimed: "\<not> (i_invited_user_id (invitation_of_xavier (Some alice) ''accepted'') =
        Some xavier \<or>
      i_invited_by (invitation_of_xavier (Some alice) ''accepted'') = xavier \<or>
      (i_invited_user_id (invitation_of_xavier (Some alice) ''accepted'') = None \<and>
       current_user_email ?db' xavier =
         Some (i_invited_email (invitation_of_xavier (Some alice) ''accepted''))))"
    by (simp add: invitation_of_xavier_def names)
  from run reads not_claimed show ?thesis by blast
qed

end
